theory Spec2Isabelle
  imports Main "HOL-Library.Multiset" "HOL-Library.AList"
begin

section \<open>JavaScript values used by App.jsx\<close>

text \<open>
  A JavaScript string is a sequence of UTF-16 code units; a code unit is a natural number
  here. \<open>js\<close> turns an ASCII literal of the source into that representation.
\<close>

type_synonym jsstring = "nat list"

definition js :: "string \<Rightarrow> jsstring" where
  "js s = map of_char s"

text \<open>The code unit of \<open>/\<close> and of \<open>-\<close>.\<close>

definition slash :: nat where
  "slash = 47"

definition hyphen :: nat where
  "hyphen = 45"

text \<open>
  The argument of a function that the source guards with \<open>if (!x)\<close>: it may be
  \<open>undefined\<close>, \<open>null\<close> or a string. All three falsy cases (\<open>undefined\<close>,
  \<open>null\<close>, the empty string) are values of the type.
\<close>

datatype jsarg = Undefined | Null | Str jsstring

fun falsy :: "jsarg \<Rightarrow> bool" where
  "falsy Undefined = True"
| "falsy Null = True"
| "falsy (Str s) = (s = [])"

text \<open>
  White space as \<open>String.prototype.trim\<close> sees it (WhiteSpace and LineTerminator of
  ECMA-262): TAB, LF, VT, FF, CR, SP, NBSP, U+1680, U+2000..U+200A, U+2028, U+2029,
  U+202F, U+205F, U+3000 and U+FEFF.
\<close>

definition isWhiteSpace :: "nat \<Rightarrow> bool" where
  "isWhiteSpace c \<longleftrightarrow>
     c \<in> {9, 10, 11, 12, 13, 32, 160, 5760, 8232, 8233, 8239, 8287, 12288, 65279}
     \<or> (8192 \<le> c \<and> c \<le> 8202)"

definition trim :: "jsstring \<Rightarrow> jsstring" where
  "trim s = rev (dropWhile isWhiteSpace (rev (dropWhile isWhiteSpace s)))"

section \<open>HandleNormalizer: extractHandle\<close>

text \<open>
  \<open>[^\/]+\<close>: the longest run of code units other than \<open>/\<close> at the head of the
  string. The character class has no other exclusion, so white space and line breaks
  belong to the run.
\<close>

definition segment :: "jsstring \<Rightarrow> jsstring" where
  "segment s = takeWhile (\<lambda>c. c \<noteq> slash) s"

text \<open>
  \<open>/leetcode\.com\/(?:u\/)?([^\/]+)/\<close> tried at the head of the string. After the
  literal, the greedy optional group takes \<open>u/\<close> when the capture can still match
  after it; otherwise the matcher backtracks and the capture starts right after the
  literal. The result is the capture group 1.
\<close>

definition leetcodeAt :: "jsstring \<Rightarrow> jsstring option" where
  "leetcodeAt s =
     (let lit = js ''leetcode.com/'' in
      if take (length lit) s = lit then
        (let r = drop (length lit) s in
         if take 2 r = js ''u/'' \<and> segment (drop 2 r) \<noteq> [] then Some (segment (drop 2 r))
         else if segment r \<noteq> [] then Some (segment r)
         else None)
      else None)"

text \<open>\<open>/codeforces\.com\/profile\/([^\/]+)/\<close> tried at the head of the string.\<close>

definition codeforcesAt :: "jsstring \<Rightarrow> jsstring option" where
  "codeforcesAt s =
     (let lit = js ''codeforces.com/profile/'' in
      if take (length lit) s = lit \<and> segment (drop (length lit) s) \<noteq> []
      then Some (segment (drop (length lit) s))
      else None)"

text \<open>
  \<open>String.prototype.match\<close> with a regular expression without flags: the leftmost
  position where the pattern matches wins; \<open>None\<close> is the \<open>null\<close> of no match.
\<close>

fun matchFirst :: "(jsstring \<Rightarrow> jsstring option) \<Rightarrow> jsstring \<Rightarrow> jsstring option" where
  "matchFirst at [] = at []"
| "matchFirst at (c # cs) =
     (case at (c # cs) of Some g \<Rightarrow> Some g | None \<Rightarrow> matchFirst at cs)"

text \<open>
  \<open>extractHandle(input, platform)\<close> for a string \<open>input\<close> and a string tag. No
  statement of the body can throw on a string, so the model has no error value.
\<close>

definition extractHandle :: "jsstring \<Rightarrow> jsstring \<Rightarrow> jsstring" where
  "extractHandle input platform =
     (if input = [] then []
      else
        (let cleanInput = trim input in
         if platform = js ''LeetCode'' then
           (case matchFirst leetcodeAt cleanInput of Some g \<Rightarrow> g | None \<Rightarrow> cleanInput)
         else if platform = js ''Codeforces'' then
           (case matchFirst codeforcesAt cleanInput of Some g \<Rightarrow> g | None \<Rightarrow> cleanInput)
         else cleanInput))"

subsection \<open>Facts about trimming and matching\<close>

lemma trim_Nil: "trim [] = []"
  by (simp add: trim_def)

lemma set_trim_subset: "set (trim s) \<subseteq> set s"
proof -
  have "set (trim s) \<subseteq> set (dropWhile isWhiteSpace s)"
    unfolding trim_def using set_dropWhileD by fastforce
  also have "\<dots> \<subseteq> set s"
    using set_dropWhileD by fastforce
  finally show ?thesis .
qed

lemma trim_trim: "trim (trim s) = trim s"
  unfolding trim_def
  by (metis (no_types, lifting) ext Nil_is_rev_conv dropWhile_eq_Nil_conv
      dropWhile_eq_self_iff dropWhile_last hd_dropWhile last_rev rev_swap)

lemma segment_no_slash: "slash \<notin> set (segment s)"
  unfolding segment_def using set_takeWhileD by fastforce

lemma leetcodeAt_Some: "leetcodeAt s = Some g \<Longrightarrow> slash \<notin> set g \<and> slash \<in> set s"
proof -
  assume a: "leetcodeAt s = Some g"
  have lit: "slash \<in> set (js ''leetcode.com/'')"
    by (simp add: js_def slash_def)
  from a have p: "take (length (js ''leetcode.com/'')) s = js ''leetcode.com/''"
    by (simp add: leetcodeAt_def Let_def split: if_splits)
  have "set (take (length (js ''leetcode.com/'')) s) \<subseteq> set s"
    by (rule set_take_subset)
  with p lit have "slash \<in> set s" by auto
  moreover from a have "slash \<notin> set g"
    by (auto simp: leetcodeAt_def Let_def segment_no_slash split: if_splits)
  ultimately show ?thesis by simp
qed

lemma codeforcesAt_Some: "codeforcesAt s = Some g \<Longrightarrow> slash \<notin> set g \<and> slash \<in> set s"
proof -
  assume a: "codeforcesAt s = Some g"
  have lit: "slash \<in> set (js ''codeforces.com/profile/'')"
    by (simp add: js_def slash_def)
  from a have p: "take (length (js ''codeforces.com/profile/'')) s = js ''codeforces.com/profile/''"
    by (simp add: codeforcesAt_def Let_def split: if_splits)
  have "set (take (length (js ''codeforces.com/profile/'')) s) \<subseteq> set s"
    by (rule set_take_subset)
  with p lit have "slash \<in> set s" by auto
  moreover from a have "slash \<notin> set g"
    by (auto simp: codeforcesAt_def Let_def segment_no_slash split: if_splits)
  ultimately show ?thesis by simp
qed

lemma leetcodeAt_Nil: "leetcodeAt [] = None"
  by (simp add: leetcodeAt_def js_def)

lemma codeforcesAt_Nil: "codeforcesAt [] = None"
  by (simp add: codeforcesAt_def js_def)

lemma matchFirst_Some:
  assumes "\<And>t g. at t = Some g \<Longrightarrow> slash \<notin> set g \<and> slash \<in> set t"
  shows "matchFirst at s = Some g \<Longrightarrow> slash \<notin> set g \<and> slash \<in> set s"
proof (induction s)
  case Nil
  then show ?case by (auto dest: assms)
next
  case (Cons c cs)
  show ?case
  proof (cases "at (c # cs)")
    case None
    with Cons show ?thesis by simp
  next
    case (Some h)
    with Cons.prems have "h = g" by simp
    with Some assms show ?thesis by blast
  qed
qed

lemma matchFirst_no_slash:
  assumes "\<And>t g. at t = Some g \<Longrightarrow> slash \<notin> set g \<and> slash \<in> set t"
    and "slash \<notin> set s"
  shows "matchFirst at s = None"
proof (cases "matchFirst at s")
  case None
  then show ?thesis .
next
  case (Some g)
  with matchFirst_Some [where at = at and s = s and g = g] assms show ?thesis by blast
qed

lemma extractHandle_unmatched:
  assumes "matchFirst leetcodeAt s = None \<or> platform \<noteq> js ''LeetCode''"
    and "matchFirst codeforcesAt s = None \<or> platform \<noteq> js ''Codeforces'' \<or> platform = js ''LeetCode''"
    and "trim s = s"
  shows "extractHandle s platform = s"
  using assms by (auto simp: extractHandle_def Let_def trim_Nil)

section \<open>The Date object\<close>

text \<open>
  The environment a computation runs in: \<open>now\<close> is what \<open>new Date()\<close> reads
  (milliseconds since the epoch), \<open>tz\<close> is the offset of local time from UTC in
  milliseconds. The offset is one constant, so daylight-saving changes are outside the
  model. A Date object is its time value: \<open>None\<close> is the NaN of an invalid date.
\<close>

record env =
  now :: int
  tz :: int

type_synonym jsdate = "int option"

definition msPerDay :: int where
  "msPerDay = 86400000"

definition Day :: "int \<Rightarrow> int" where
  "Day t = t div msPerDay"

definition TimeWithinDay :: "int \<Rightarrow> int" where
  "TimeWithinDay t = t mod msPerDay"

definition DayFromYear :: "int \<Rightarrow> int" where
  "DayFromYear y =
     365 * (y - 1970) + (y - 1969) div 4 - (y - 1901) div 100 + (y - 1601) div 400"

lemma DayFromYear_less: "DayFromYear y < DayFromYear (y + 1)"
proof -
  define a a' b b' c c' where
    "a = (y - 1969) div 4" and "a' = (y + 1 - 1969) div 4" and
    "b = (y - 1901) div 100" and "b' = (y + 1 - 1901) div 100" and
    "c = (y - 1601) div 400" and "c' = (y + 1 - 1601) div 400"
  have "a \<le> a'" unfolding a_def a'_def
    by (rule zdiv_mono1) simp_all
  moreover have "b' \<le> b + 1" unfolding b_def b'_def
    by arith
  moreover have "c \<le> c'" unfolding c_def c'_def
    by (rule zdiv_mono1) simp_all
  moreover have "DayFromYear y = 365 * (y - 1970) + a - b + c"
    by (simp add: DayFromYear_def a_def b_def c_def)
  moreover have "DayFromYear (y + 1) = 365 * (y + 1 - 1970) + a' - b' + c'"
    by (simp add: DayFromYear_def a'_def b'_def c'_def)
  ultimately show ?thesis by simp
qed

text \<open>
  \<open>YearFromTime(t)\<close> is the largest year \<open>y\<close> with \<open>TimeFromYear(y) \<le> t\<close>. The
  search goes down from an estimate to a year that starts on or before the day, then up
  to the last such year.
\<close>

function yearDown :: "int \<Rightarrow> int \<Rightarrow> int" where
  "yearDown d y = (if d < DayFromYear y then yearDown d (y - 1) else y)"
  by pat_completeness auto
termination
proof (relation "measure (\<lambda>(d, y). nat (DayFromYear y - d))")
  show "wf (measure (\<lambda>(d, y). nat (DayFromYear y - d)))" by simp
next
  fix d y :: int
  assume "d < DayFromYear y"
  with DayFromYear_less [of "y - 1"]
  show "((d, y - 1), (d, y)) \<in> measure (\<lambda>(d, y). nat (DayFromYear y - d))" by simp
qed

function yearUp :: "int \<Rightarrow> int \<Rightarrow> int" where
  "yearUp d y = (if DayFromYear (y + 1) \<le> d then yearUp d (y + 1) else y)"
  by pat_completeness auto
termination
proof (relation "measure (\<lambda>(d, y). nat (d - DayFromYear y))")
  show "wf (measure (\<lambda>(d, y). nat (d - DayFromYear y)))" by simp
next
  fix d y :: int
  assume "DayFromYear (y + 1) \<le> d"
  with DayFromYear_less [of y]
  show "((d, y + 1), (d, y)) \<in> measure (\<lambda>(d, y). nat (d - DayFromYear y))" by simp
qed

declare yearDown.simps [simp del] yearUp.simps [simp del]

definition YearFromDay :: "int \<Rightarrow> int" where
  "YearFromDay d = yearUp d (yearDown d (1970 + d div 366))"

definition YearFromTime :: "int \<Rightarrow> int" where
  "YearFromTime t = YearFromDay (Day t)"

text \<open>\<open>DaysInYear(y) = 366\<close>.\<close>

definition leapYear :: "int \<Rightarrow> bool" where
  "leapYear y = (if y mod 4 \<noteq> 0 then False else if y mod 100 \<noteq> 0 then True else y mod 400 = 0)"

definition InLeapYear :: "int \<Rightarrow> bool" where
  "InLeapYear t = leapYear (YearFromTime t)"

definition DayWithinYear :: "int \<Rightarrow> int" where
  "DayWithinYear t = Day t - DayFromYear (YearFromTime t)"

text \<open>
  The day within the year on which month \<open>m\<close> (0 is January) starts: the bounds of the
  table of \<open>MonthFromTime\<close> in ECMA-262.
\<close>

definition monthStart :: "bool \<Rightarrow> int \<Rightarrow> int" where
  "monthStart leap m =
     (let l = (if leap then 1 else 0) in
      if m = 0 then 0 else if m = 1 then 31 else if m = 2 then 59 + l
      else if m = 3 then 90 + l else if m = 4 then 120 + l else if m = 5 then 151 + l
      else if m = 6 then 181 + l else if m = 7 then 212 + l else if m = 8 then 243 + l
      else if m = 9 then 273 + l else if m = 10 then 304 + l else 334 + l)"

definition MonthFromTime :: "int \<Rightarrow> int" where
  "MonthFromTime t =
     (let d = DayWithinYear t; leap = InLeapYear t in
      if d < monthStart leap 1 then 0 else if d < monthStart leap 2 then 1
      else if d < monthStart leap 3 then 2 else if d < monthStart leap 4 then 3
      else if d < monthStart leap 5 then 4 else if d < monthStart leap 6 then 5
      else if d < monthStart leap 7 then 6 else if d < monthStart leap 8 then 7
      else if d < monthStart leap 9 then 8 else if d < monthStart leap 10 then 9
      else if d < monthStart leap 11 then 10 else 11)"

definition DateFromTime :: "int \<Rightarrow> int" where
  "DateFromTime t = DayWithinYear t - monthStart (InLeapYear t) (MonthFromTime t) + 1"

definition WeekDay :: "int \<Rightarrow> int" where
  "WeekDay t = (Day t + 4) mod 7"

text \<open>
  \<open>MakeDay(year, month, date)\<close>: months outside 0..11 carry into the year, and the date
  counts on from the first of the month, so a date outside the month carries as well.
\<close>

definition MakeDay :: "int \<Rightarrow> int \<Rightarrow> int \<Rightarrow> int" where
  "MakeDay year month dt =
     (let ym = year + month div 12; mn = month mod 12 in
      DayFromYear ym + monthStart (leapYear ym) mn + dt - 1)"

definition MakeDate :: "int \<Rightarrow> int \<Rightarrow> int" where
  "MakeDate day time = day * msPerDay + time"

definition TimeClip :: "int \<Rightarrow> jsdate" where
  "TimeClip t = (if \<bar>t\<bar> > 8640000000000000 then None else Some t)"

definition LocalTime :: "env \<Rightarrow> int \<Rightarrow> int" where
  "LocalTime e t = t + tz e"

definition UTC :: "env \<Rightarrow> int \<Rightarrow> int" where
  "UTC e t = t - tz e"

text \<open>
  \<open>new Date(y, m, d)\<close> on numbers; \<open>None\<close> is NaN. A year from 0 to 99 is read as
  1900 + year.
\<close>

definition newDate3 :: "env \<Rightarrow> int option \<Rightarrow> int option \<Rightarrow> int option \<Rightarrow> jsdate" where
  "newDate3 e y m d =
     (case (y, m, d) of
        (Some y, Some m, Some d) \<Rightarrow>
          (let yr = (if 0 \<le> y \<and> y \<le> 99 then 1900 + y else y) in
           TimeClip (UTC e (MakeDate (MakeDay yr m d) 0)))
      | _ \<Rightarrow> None)"

definition getFullYear :: "env \<Rightarrow> jsdate \<Rightarrow> int option" where
  "getFullYear e dv = map_option (\<lambda>t. YearFromTime (LocalTime e t)) dv"

definition getMonth :: "env \<Rightarrow> jsdate \<Rightarrow> int option" where
  "getMonth e dv = map_option (\<lambda>t. MonthFromTime (LocalTime e t)) dv"

definition getDate :: "env \<Rightarrow> jsdate \<Rightarrow> int option" where
  "getDate e dv = map_option (\<lambda>t. DateFromTime (LocalTime e t)) dv"

definition getDay :: "env \<Rightarrow> jsdate \<Rightarrow> int option" where
  "getDay e dv = map_option (\<lambda>t. WeekDay (LocalTime e t)) dv"

definition setDate :: "env \<Rightarrow> jsdate \<Rightarrow> int option \<Rightarrow> jsdate" where
  "setDate e dv dt =
     (case (dv, dt) of
        (Some t, Some n) \<Rightarrow>
          (let lt = LocalTime e t in
           TimeClip (UTC e (MakeDate (MakeDay (YearFromTime lt) (MonthFromTime lt) n)
                                     (TimeWithinDay lt))))
      | _ \<Rightarrow> None)"

text \<open>\<open>setHours(0, 0, 0, 0)\<close>.\<close>

definition setHours0 :: "env \<Rightarrow> jsdate \<Rightarrow> jsdate" where
  "setHours0 e dv =
     (case dv of
        Some t \<Rightarrow> TimeClip (UTC e (MakeDate (Day (LocalTime e t)) 0))
      | None \<Rightarrow> None)"

text \<open>\<open>a.getTime() >= b.getTime()\<close> and \<open>a.getTime() < b.getTime()\<close>: false on NaN.\<close>

definition timeGe :: "jsdate \<Rightarrow> jsdate \<Rightarrow> bool" where
  "timeGe a b = (case (a, b) of (Some x, Some y) \<Rightarrow> x \<ge> y | _ \<Rightarrow> False)"

definition timeLt :: "jsdate \<Rightarrow> jsdate \<Rightarrow> bool" where
  "timeLt a b = (case (a, b) of (Some x, Some y) \<Rightarrow> x < y | _ \<Rightarrow> False)"

subsection \<open>Numbers and strings\<close>

definition isDigit :: "nat \<Rightarrow> bool" where
  "isDigit c \<longleftrightarrow> 48 \<le> c \<and> c \<le> 57"

definition decimalValue :: "jsstring \<Rightarrow> int" where
  "decimalValue s = foldl (\<lambda>a c. 10 * a + int (c - 48)) 0 s"

text \<open>The decimal digits of a natural number, as number-to-string conversion writes them.\<close>

fun decimal :: "nat \<Rightarrow> jsstring" where
  "decimal n = (if n < 10 then [48 + n] else decimal (n div 10) @ [48 + n mod 10])"

declare decimal.simps [simp del]

definition intString :: "int \<Rightarrow> jsstring" where
  "intString i = (if i < 0 then hyphen # decimal (nat (- i)) else decimal (nat i))"

text \<open>
  \<open>Number(s)\<close> on a piece of a date string: white space is stripped, the empty string
  is 0, a run of decimal digits is its value. Every other piece is NaN here; that is
  JavaScript's answer for text that is no numeral, and it leaves the other numeral
  forms of \<open>Number\<close> (a sign, a fraction, an exponent, a radix prefix, Infinity)
  outside the model.
\<close>

definition Number :: "jsstring \<Rightarrow> int option" where
  "Number s =
     (let t = trim s in
      if t = [] then Some 0
      else if list_all isDigit t then Some (decimalValue t)
      else None)"

text \<open>
  \<open>parseInt(s)\<close> without a radix: leading white space and a sign are skipped, a
  \<open>0x\<close> prefix selects base 16, and the longest run of digits is read; NaN when the
  run is empty.
\<close>

definition hexDigit :: "nat \<Rightarrow> int option" where
  "hexDigit c =
     (if 48 \<le> c \<and> c \<le> 57 then Some (int c - 48)
      else if 97 \<le> c \<and> c \<le> 102 then Some (int c - 87)
      else if 65 \<le> c \<and> c \<le> 70 then Some (int c - 55)
      else None)"

definition hexValue :: "jsstring \<Rightarrow> int" where
  "hexValue s = foldl (\<lambda>a c. 16 * a + (case hexDigit c of Some v \<Rightarrow> v | None \<Rightarrow> 0)) 0 s"

definition parseInt :: "jsstring \<Rightarrow> int option" where
  "parseInt s =
     (let t = dropWhile isWhiteSpace s;
          sign = (if take 1 t = [hyphen] then - 1 else 1);
          u = (if take 1 t = [hyphen] \<or> take 1 t = js ''+'' then drop 1 t else t)
      in
        if take 2 u = js ''0x'' \<or> take 2 u = js ''0X'' then
          (let ds = takeWhile (\<lambda>c. hexDigit c \<noteq> None) (drop 2 u) in
           if ds = [] then None else Some (sign * hexValue ds))
        else
          (let ds = takeWhile isDigit u in
           if ds = [] then None else Some (sign * decimalValue ds)))"

text \<open>\<open>String.prototype.split\<close> with a one-character separator.\<close>

fun split :: "nat \<Rightarrow> jsstring \<Rightarrow> jsstring list" where
  "split sep [] = [[]]"
| "split sep (c # cs) =
     (if c = sep then [] # split sep cs
      else (case split sep cs of p # ps \<Rightarrow> (c # p) # ps | [] \<Rightarrow> [[c]]))"

text \<open>An element of an array read by destructuring: \<open>undefined\<close>, hence NaN, when absent.\<close>

definition element :: "int option list \<Rightarrow> nat \<Rightarrow> int option" where
  "element xs i = (if i < length xs then xs ! i else None)"

text \<open>
  \<open>toLocaleDateString('en-CA')\<close>: year, month and day of the local date as
  \<open>y-MM-dd\<close>, and the text \<open>Invalid Date\<close> for an invalid date. The year is written
  without padding; a year before 1 is written as its year of the era.
\<close>

definition pad2 :: "int \<Rightarrow> jsstring" where
  "pad2 n = (if n < 10 then 48 # decimal (nat n) else decimal (nat n))"

definition toLocaleDateString :: "env \<Rightarrow> jsdate \<Rightarrow> jsstring" where
  "toLocaleDateString e dv =
     (case dv of
        None \<Rightarrow> js ''Invalid Date''
      | Some t \<Rightarrow>
          (let lt = LocalTime e t; y = YearFromTime lt in
           decimal (nat (if 1 \<le> y then y else 1 - y)) @ [hyphen]
           @ pad2 (MonthFromTime lt + 1) @ [hyphen] @ pad2 (DateFromTime lt)))"

subsection \<open>Values and their conversion to numbers\<close>

text \<open>
  A value as \<open>JSON.parse\<close> delivers it, or a number computed from one: \<open>undefined\<close>
  (an absent property), \<open>null\<close>, a boolean, an integer number, the number NaN, a
  string, a plain object, an array. Numbers of JSON texts are integers here.
\<close>

datatype jsvalue =
  JUndefined | JNull | JBool bool | JNum int | JNaN | JStr jsstring | JObj | JArr "jsvalue list"

text \<open>The truth value of \<open>if (v)\<close> and of \<open>!v\<close>.\<close>

fun truthy :: "jsvalue \<Rightarrow> bool" where
  "truthy JUndefined = False"
| "truthy JNull = False"
| "truthy (JBool b) = b"
| "truthy (JNum n) = (n \<noteq> 0)"
| "truthy JNaN = False"
| "truthy (JStr s) = (s \<noteq> [])"
| "truthy JObj = True"
| "truthy (JArr xs) = True"

text \<open>
  The result of a conversion to a number: NaN, an infinity, or a finite number kept as
  the exact decimal \<open>m * 10 ^ k\<close> that the text denotes. The rounding of a numeral
  with a fraction or an exponent to the nearest double is not modelled; the sign of an
  infinity and of zero plays no role below.
\<close>

datatype jsnum = NaN | Infinite | Decimal int int

definition radixDigits :: "int \<Rightarrow> jsstring \<Rightarrow> bool" where
  "radixDigits b ds \<longleftrightarrow>
     ds \<noteq> [] \<and> list_all (\<lambda>c. case hexDigit c of None \<Rightarrow> False | Some v \<Rightarrow> v < b) ds"

definition radixValue :: "int \<Rightarrow> jsstring \<Rightarrow> int" where
  "radixValue b ds = foldl (\<lambda>a c. b * a + (case hexDigit c of Some v \<Rightarrow> v | None \<Rightarrow> 0)) 0 ds"

text \<open>
  \<open>StrDecimalLiteral\<close> of ECMA-262 on the whole of a trimmed string: an optional sign,
  then \<open>Infinity\<close> or digits with an optional fraction and an optional exponent, with
  a digit before or after the point. \<open>a\<close> are the digits before the point, \<open>b\<close>
  those after it, \<open>r3\<close> what follows them, \<open>ds\<close> the digits of the exponent.
\<close>

definition StrDecimalLiteral :: "jsstring \<Rightarrow> jsnum" where
  "StrDecimalLiteral t =
     (let sign = (if take 1 t = [hyphen] then - 1 else 1);
          u = (if take 1 t = [hyphen] \<or> take 1 t = js ''+'' then drop 1 t else t)
      in
        if u = js ''Infinity'' then Infinite
        else
          (let a = takeWhile isDigit u;
               r1 = dropWhile isDigit u;
               dot = (take 1 r1 = js ''.'');
               b = (if dot then takeWhile isDigit (drop 1 r1) else []);
               r3 = (if dot then dropWhile isDigit (drop 1 r1) else r1);
               r4 = drop 1 r3;
               esign = (if take 1 r4 = [hyphen] then - 1 else 1);
               ds = (if take 1 r4 = [hyphen] \<or> take 1 r4 = js ''+'' then drop 1 r4 else r4)
           in
             if a = [] \<and> b = [] then NaN
             else if r3 = [] then Decimal (sign * decimalValue (a @ b)) (- int (length b))
             else if (take 1 r3 = js ''e'' \<or> take 1 r3 = js ''E'') \<and> ds \<noteq> [] \<and> list_all isDigit ds
               then Decimal (sign * decimalValue (a @ b)) (esign * decimalValue ds - int (length b))
             else NaN))"

text \<open>
  \<open>StringToNumber\<close>: white space is stripped; the empty string is 0; a numeral with a
  radix prefix has no sign; any text that is no \<open>StringNumericLiteral\<close> is NaN.
\<close>

definition StringToNumber :: "jsstring \<Rightarrow> jsnum" where
  "StringToNumber s =
     (let t = trim s in
      if t = [] then Decimal 0 0
      else if take 2 t = js ''0x'' \<or> take 2 t = js ''0X'' then
        (if radixDigits 16 (drop 2 t) then Decimal (radixValue 16 (drop 2 t)) 0 else NaN)
      else if take 2 t = js ''0o'' \<or> take 2 t = js ''0O'' then
        (if radixDigits 8 (drop 2 t) then Decimal (radixValue 8 (drop 2 t)) 0 else NaN)
      else if take 2 t = js ''0b'' \<or> take 2 t = js ''0B'' then
        (if radixDigits 2 (drop 2 t) then Decimal (radixValue 2 (drop 2 t)) 0 else NaN)
      else StrDecimalLiteral t)"

text \<open>
  \<open>ToString\<close>: an integer is written in decimal digits; an array is the texts of its
  elements joined by commas, with \<open>undefined\<close> and \<open>null\<close> elements empty; a plain
  object is \<open>[object Object]\<close>.
\<close>

fun joinComma :: "jsstring list \<Rightarrow> jsstring" where
  "joinComma [] = []"
| "joinComma [x] = x"
| "joinComma (x # y # ys) = x @ js '','' @ joinComma (y # ys)"

fun ToString :: "jsvalue \<Rightarrow> jsstring" where
  "ToString JUndefined = js ''undefined''"
| "ToString JNull = js ''null''"
| "ToString (JBool b) = (if b then js ''true'' else js ''false'')"
| "ToString (JNum n) = intString n"
| "ToString JNaN = js ''NaN''"
| "ToString (JStr s) = s"
| "ToString JObj = js ''[object Object]''"
| "ToString (JArr xs) =
     joinComma (map (\<lambda>x. if x = JUndefined \<or> x = JNull then [] else ToString x) xs)"

text \<open>
  \<open>ToNumber\<close>, which \<open>isNaN(v)\<close> and \<open>v * 1000\<close> apply to their operand: an object
  or array is converted through its text.
\<close>

fun ToNumber :: "jsvalue \<Rightarrow> jsnum" where
  "ToNumber JUndefined = NaN"
| "ToNumber JNull = Decimal 0 0"
| "ToNumber (JBool b) = Decimal (if b then 1 else 0) 0"
| "ToNumber (JNum n) = Decimal n 0"
| "ToNumber JNaN = NaN"
| "ToNumber (JStr s) = StringToNumber s"
| "ToNumber JObj = NaN"
| "ToNumber (JArr xs) = StringToNumber (ToString (JArr xs))"

fun times1000 :: "jsnum \<Rightarrow> jsnum" where
  "times1000 NaN = NaN"
| "times1000 Infinite = Infinite"
| "times1000 (Decimal m k) = Decimal m (k + 3)"

text \<open>
  \<open>new Date(value)\<close> on a number: \<open>TimeClip\<close> makes NaN, an infinity and a time
  beyond the range an invalid date, and cuts the fraction of a time in range.
\<close>

fun newDate1 :: "jsnum \<Rightarrow> jsdate" where
  "newDate1 NaN = None"
| "newDate1 Infinite = None"
| "newDate1 (Decimal m k) =
     (if 0 \<le> k then TimeClip (m * 10 ^ nat k)
      else if \<bar>m\<bar> > 8640000000000000 * 10 ^ nat (- k) then None
      else Some (sgn m * (\<bar>m\<bar> div 10 ^ nat (- k))))"

text \<open>The number \<open>parseInt\<close> returns, as a value.\<close>

definition numberValue :: "int option \<Rightarrow> jsvalue" where
  "numberValue n = (case n of None \<Rightarrow> JNaN | Some i \<Rightarrow> JNum i)"

section \<open>API utilities\<close>

text \<open>
  \<open>getLocalDate(timestamp)\<close> on any value. The guard
  \<open>!timestamp || isNaN(timestamp)\<close> holds for a falsy value (\<open>undefined\<close>, \<open>null\<close>,
  0, NaN, the empty string, \<open>false\<close>) and for a value that converts to NaN (a text
  that is no numeral, a plain object), and then the result is today's date. Nothing in
  the \<open>try\<close> block throws: an out-of-range time gives an invalid Date, whose text is
  \<open>Invalid Date\<close>.
\<close>

definition getLocalDate :: "env \<Rightarrow> jsvalue \<Rightarrow> jsstring" where
  "getLocalDate e timestamp =
     (if \<not> truthy timestamp \<or> ToNumber timestamp = NaN
      then toLocaleDateString e (Some (now e))
      else toLocaleDateString e (newDate1 (times1000 (ToNumber timestamp))))"

subsection \<open>Stored data\<close>

text \<open>
  One record of a history, \<open>{date, count}\<close>, and the \<open>{totalSolved, history}\<close> a
  fetcher returns. The field \<open>count\<close> is named \<open>count'\<close> here.
\<close>

record activity =
  date :: jsstring
  count' :: int

record platform_stats =
  totalSolved :: int
  history :: "activity list"

subsection \<open>Codeforces\<close>

text \<open>
  A submission of the \<open>user.status\<close> answer. \<open>verdict\<close>, \<open>problem\<close>,
  and \<open>contestId\<close> may be absent (\<open>None\<close> is \<open>undefined\<close>);
  \<open>creationTimeSeconds\<close> is whatever value the answer carries, \<open>JUndefined\<close> when
  the property is absent.
\<close>

record cf_problem =
  contestId :: "int option"
  index :: jsstring

record submission =
  verdict :: "jsstring option"
  problem :: "cf_problem option"
  creationTimeSeconds :: jsvalue

text \<open>
  What the request gives: \<open>CfRejected\<close> when \<open>fetch\<close> or \<open>response.json()\<close>
  rejects (transport error, a body that is no JSON object), otherwise the \<open>status\<close>
  and the \<open>result\<close> array of the body (\<open>None\<close> when absent).
\<close>

datatype cf_response =
  CfRejected
| CfJson "jsstring option" "submission list option"

text \<open>
  A \<open>Set\<close> of strings is the list of its elements in insertion order, without
  repetition; \<open>size\<close> is its length. An object used as a dictionary is an association
  list in insertion order (\<open>AList.update\<close> replaces in place or appends).
\<close>

definition set_add :: "jsstring \<Rightarrow> jsstring list \<Rightarrow> jsstring list" where
  "set_add x s = (if x \<in> set s then s else s @ [x])"

text \<open>The template \<open>`${sub.problem.contestId}-${sub.problem.index}`\<close>.\<close>

definition problemId :: "cf_problem \<Rightarrow> jsstring" where
  "problemId p =
     (case contestId p of None \<Rightarrow> js ''undefined'' | Some c \<Rightarrow> intString c)
     @ [hyphen] @ index p"

type_synonym cf_state = "(jsstring \<times> jsstring list) list \<times> jsstring list"

text \<open>
  The body of the \<open>forEach\<close> callback on the state \<open>(dailySolved, totalUnique)\<close>.
  \<open>None\<close> is the TypeError of reading \<open>contestId\<close> of an absent \<open>problem\<close>. The
  two statements that create the day's set when it is absent and then add to it are one
  update of the day's entry.
\<close>

definition cf_step :: "env \<Rightarrow> submission \<Rightarrow> cf_state \<Rightarrow> cf_state option" where
  "cf_step e sub st =
     (case st of (dailySolved, totalUnique) \<Rightarrow>
        if verdict sub = Some (js ''OK'') then
          (case problem sub of
             None \<Rightarrow> None
           | Some p \<Rightarrow>
               (let pid = problemId p;
                    totalUnique' = set_add pid totalUnique
                in
                  if truthy (creationTimeSeconds sub) then
                    (let d = getLocalDate e (creationTimeSeconds sub);
                         day = (case map_of dailySolved d of None \<Rightarrow> [] | Some s \<Rightarrow> s)
                     in Some (AList.update d (set_add pid day) dailySolved, totalUnique'))
                  else Some (dailySolved, totalUnique')))
        else Some st)"

fun cf_forEach :: "env \<Rightarrow> submission list \<Rightarrow> cf_state \<Rightarrow> cf_state option" where
  "cf_forEach e [] st = Some st"
| "cf_forEach e (sub # subs) st =
     (case cf_step e sub st of None \<Rightarrow> None | Some st' \<Rightarrow> cf_forEach e subs st')"

text \<open>
  \<open>fetchCodeforcesData\<close> on the answer of the request; \<open>None\<close> is the \<open>null\<close> of the
  \<open>catch\<close> block.
\<close>

definition fetchCodeforcesData :: "env \<Rightarrow> cf_response \<Rightarrow> platform_stats option" where
  "fetchCodeforcesData e resp =
     (case resp of
        CfRejected \<Rightarrow> None
      | CfJson status result \<Rightarrow>
          if status \<noteq> Some (js ''OK'') then None
          else
            (case result of
               None \<Rightarrow> None
             | Some subs \<Rightarrow>
                 (case cf_forEach e subs ([], []) of
                    None \<Rightarrow> None
                  | Some (dailySolved, totalUnique) \<Rightarrow>
                      Some \<lparr>totalSolved = int (length totalUnique),
                            history = map (\<lambda>(d, s). \<lparr>date = d, count' = int (length s)\<rparr>)
                                          dailySolved\<rparr>)))"

subsection \<open>LeetCode\<close>

text \<open>
  The body of the answer: \<open>status\<close>, \<open>totalSolved\<close> and the entries of
  \<open>submissionCalendar\<close> in the order \<open>Object.entries\<close> lists them (\<open>None\<close> when the
  calendar is absent).
\<close>

datatype lc_response =
  LcRejected
| LcJson "jsstring option" int "(jsstring \<times> int) list option"

definition fetchLeetCodeData :: "env \<Rightarrow> lc_response \<Rightarrow> platform_stats option" where
  "fetchLeetCodeData e resp =
     (case resp of
        LcRejected \<Rightarrow> None
      | LcJson status solved calendar \<Rightarrow>
          if status \<noteq> Some (js ''success'') then None
          else
            Some \<lparr>totalSolved = solved,
                  history = map (\<lambda>(ts, c). \<lparr>date = getLocalDate e (numberValue (parseInt ts)),
                                                  count' = c\<rparr>)
                                (case calendar of None \<Rightarrow> [] | Some es \<Rightarrow> es)\<rparr>)"

section \<open>Date utilities: the week window\<close>

definition getStartOfWeek :: "env \<Rightarrow> jsdate" where
  "getStartOfWeek e =
     (let today = Some (now e);
          d = newDate3 e (getFullYear e today) (getMonth e today) (getDate e today);
          day = getDay e d;
          diff = (case (getDate e d, day) of
                    (Some dd, Some dy) \<Rightarrow> Some (dd - dy + (if dy = 0 then - 6 else 1))
                  | _ \<Rightarrow> None);
          d1 = setDate e d diff
      in setHours0 e d1)"

definition isDateInCurrentWeek :: "env \<Rightarrow> jsarg \<Rightarrow> bool" where
  "isDateInCurrentWeek e dateStr =
     (if falsy dateStr then False
      else
        (case dateStr of
           Str s \<Rightarrow>
             (let parts = map Number (split hyphen s);
                  y = element parts 0; m = element parts 1; d = element parts 2;
                  dt = newDate3 e y (map_option (\<lambda>m. m - 1) m) d;
                  startOfWeek = getStartOfWeek e;
                  endOfWeek = setDate e startOfWeek
                                (map_option (\<lambda>x. x + 7) (getDate e startOfWeek))
              in timeGe dt startOfWeek \<and> timeLt dt endOfWeek)
         | _ \<Rightarrow> False))"

section \<open>Users\<close>

text \<open>
  A user: \<open>{id, username, handles: {leetcode, codeforces}, data: {leetcode, codeforces}}\<close>.
  The two handles are \<open>h_leetcode\<close> and \<open>h_codeforces\<close> (the empty string when the
  platform is not tracked), \<open>id\<close> is \<open>id'\<close>; a platform without stored stats
  (\<open>undefined\<close> or \<open>null\<close>) is \<open>None\<close>.
\<close>

record handles =
  h_leetcode :: jsstring
  h_codeforces :: jsstring

record user_data =
  leetcode :: "platform_stats option"
  codeforces :: "platform_stats option"

record user =
  id' :: int
  username :: jsstring
  handles :: handles
  data :: user_data

record ranked_user = user +
  weeklyScore :: int

subsection \<open>HistoryMerger: the map built in combinedHistory\<close>

text \<open>
  \<open>merge(hist)\<close> on the dictionary \<open>historyMap\<close>:
  \<open>historyMap[entry.date] = (historyMap[entry.date] || 0) + entry.count\<close> for each
  entry, nothing for an absent history.
\<close>

definition mergeEntry :: "(jsstring \<times> int) list \<Rightarrow> activity \<Rightarrow> (jsstring \<times> int) list" where
  "mergeEntry historyMap entry =
     AList.update (date entry)
       ((case map_of historyMap (date entry) of None \<Rightarrow> 0 | Some v \<Rightarrow> v) + count' entry)
       historyMap"

definition merge :: "activity list option \<Rightarrow> (jsstring \<times> int) list \<Rightarrow> (jsstring \<times> int) list" where
  "merge hist historyMap = (case hist of None \<Rightarrow> historyMap | Some h \<Rightarrow> foldl mergeEntry historyMap h)"

text \<open>
  \<open>historyMap\<close> after the two \<open>merge\<close> calls of \<open>combinedHistory\<close>. The rest of
  \<open>combinedHistory\<close> selects from this map the dates of the chosen time frame and
  orders them for display.
\<close>

definition historyMap :: "user \<Rightarrow> (jsstring \<times> int) list" where
  "historyMap u =
     merge (map_option history (codeforces (data u)))
       (merge (map_option history (leetcode (data u))) [])"

subsection \<open>RankingEngine\<close>

definition sumWeekly :: "env \<Rightarrow> activity list option \<Rightarrow> int" where
  "sumWeekly e hist =
     (case hist of
        None \<Rightarrow> 0
      | Some h \<Rightarrow>
          foldl (\<lambda>acc curr. acc + count' curr) 0
            (filter (\<lambda>h. isDateInCurrentWeek e (Str (date h))) h))"

definition calculateWeeklyScore :: "env \<Rightarrow> user \<Rightarrow> int" where
  "calculateWeeklyScore e u =
     0 + sumWeekly e (map_option history (leetcode (data u)))
       + sumWeekly e (map_option history (codeforces (data u)))"

text \<open>
  \<open>Array.prototype.sort\<close> with a comparator: the sort is stable, and for a consistent
  comparator the result is the one stable ordering. \<open>x\<close> goes before the first element
  that it does not have to follow.
\<close>

fun insertBy :: "('a \<Rightarrow> 'a \<Rightarrow> int) \<Rightarrow> 'a \<Rightarrow> 'a list \<Rightarrow> 'a list" where
  "insertBy cmp x [] = [x]"
| "insertBy cmp x (y # ys) = (if cmp x y \<le> 0 then x # y # ys else y # insertBy cmp x ys)"

definition sortBy :: "('a \<Rightarrow> 'a \<Rightarrow> int) \<Rightarrow> 'a list \<Rightarrow> 'a list" where
  "sortBy cmp xs = foldr (insertBy cmp) xs []"

text \<open>\<open>{...user, weeklyScore: calculateWeeklyScore(user)}\<close>.\<close>

definition withScore :: "env \<Rightarrow> user \<Rightarrow> ranked_user" where
  "withScore e u = user.extend u (ranked_user.fields (calculateWeeklyScore e u))"

definition rankedUsers :: "env \<Rightarrow> user list \<Rightarrow> ranked_user list" where
  "rankedUsers e users =
     sortBy (\<lambda>a b. weeklyScore b - weeklyScore a) (map (withScore e) users)"

subsection \<open>Synchronising one user\<close>

text \<open>
  The network, as the answer each platform gives for a handle. \<open>manualSync\<close> builds
  \<open>updates = {data: {...user.data}}\<close>, overwrites a platform's entry when its fetcher
  returned an object, and hands \<open>updates\<close> to \<open>updateUser\<close>; the result here is
  \<open>updates.data\<close>.
\<close>

record network =
  lcAnswer :: "jsstring \<Rightarrow> lc_response"
  cfAnswer :: "jsstring \<Rightarrow> cf_response"

definition manualSync :: "env \<Rightarrow> network \<Rightarrow> user \<Rightarrow> user_data" where
  "manualSync e net u =
     (let updates = data u;
          updates1 =
            (if h_leetcode (handles u) \<noteq> [] then
               (case fetchLeetCodeData e (lcAnswer net (h_leetcode (handles u))) of
                  Some d \<Rightarrow> updates\<lparr>leetcode := Some d\<rparr>
                | None \<Rightarrow> updates)
             else updates);
          updates2 =
            (if h_codeforces (handles u) \<noteq> [] then
               (case fetchCodeforcesData e (cfAnswer net (h_codeforces (handles u))) of
                  Some d \<Rightarrow> updates1\<lparr>codeforces := Some d\<rparr>
                | None \<Rightarrow> updates1)
             else updates1)
      in updates2)"

text \<open>
  \<open>updateUser(id, updates)\<close> for an \<open>updates\<close> object with the one key \<open>data\<close>:
  \<open>prev.map(u => u.id === id ? { ...u, ...updates } : u)\<close>.
\<close>

definition updateUser :: "int \<Rightarrow> user_data \<Rightarrow> user list \<Rightarrow> user list" where
  "updateUser i updates prev = map (\<lambda>u. if id' u = i then u\<lparr>data := updates\<rparr> else u) prev"

section \<open>The week window in the words of the specification\<close>

text \<open>
  The local day number of now, and the most recent Monday on or before it: the day
  number of today minus the days since Monday (\<open>WeekDay\<close> is 0 on Sunday, 1 on
  Monday).
\<close>

definition today :: "env \<Rightarrow> int" where
  "today e = Day (LocalTime e (now e))"

definition mostRecentMonday :: "env \<Rightarrow> int" where
  "mostRecentMonday e = today e - (WeekDay (LocalTime e (now e)) + 6) mod 7"

text \<open>
  A clock the week computation can run on: a week around now is inside the range of
  Date, the offset of local time is at most a day, and the local year is not one of 0
  to 99, which \<open>new Date(y, m, d)\<close> would read as 1900 to 1999.
\<close>

definition validClock :: "env \<Rightarrow> bool" where
  "validClock e \<longleftrightarrow>
     \<bar>now e\<bar> + 7 * msPerDay \<le> 8640000000000000
     \<and> \<bar>tz e\<bar> \<le> msPerDay
     \<and> (YearFromTime (LocalTime e (now e)) < 0 \<or> 99 < YearFromTime (LocalTime e (now e)))"

text \<open>
  The date string \<open>YYYY-MM-DD\<close> of a calendar date, and the calendar date's day
  number (days since 1970-01-01).
\<close>

definition pad4 :: "int \<Rightarrow> jsstring" where
  "pad4 y = replicate (4 - length (decimal (nat y))) 48 @ decimal (nat y)"

definition dateString :: "int \<Rightarrow> int \<Rightarrow> int \<Rightarrow> jsstring" where
  "dateString y m d = pad4 y @ [hyphen] @ pad2 m @ [hyphen] @ pad2 d"

definition dayNumber :: "int \<Rightarrow> int \<Rightarrow> int \<Rightarrow> int" where
  "dayNumber y m d = MakeDay y (m - 1) d"

section \<open>Properties of the Date model\<close>

lemma Day_mult: "Day (d * msPerDay) = d"
  by (simp add: Day_def msPerDay_def)

lemma TimeWithinDay_mult: "TimeWithinDay (d * msPerDay) = 0"
  by (simp add: TimeWithinDay_def msPerDay_def)

lemma Day_decomp: "Day t * msPerDay + TimeWithinDay t = t"
  by (simp add: Day_def TimeWithinDay_def)

lemma Day_bounds: "Day t * msPerDay \<le> t \<and> t < Day t * msPerDay + msPerDay"
proof -
  have "0 \<le> TimeWithinDay t \<and> TimeWithinDay t < msPerDay"
    by (simp add: TimeWithinDay_def msPerDay_def)
  with Day_decomp [of t] show ?thesis by linarith
qed

lemma MonthFromTime_range: "0 \<le> MonthFromTime t \<and> MonthFromTime t \<le> 11"
  by (simp add: MonthFromTime_def Let_def)

lemma MakeDay_fields:
  "MakeDay (YearFromTime t) (MonthFromTime t) (DateFromTime t + k) = Day t + k"
proof -
  have "MonthFromTime t div 12 = 0" "MonthFromTime t mod 12 = MonthFromTime t"
    using MonthFromTime_range [of t] by simp_all
  then show ?thesis
    by (simp add: MakeDay_def DateFromTime_def DayWithinYear_def InLeapYear_def)
qed

lemma fields_of_Day:
  assumes "Day t = Day t'"
  shows "YearFromTime t = YearFromTime t'" "MonthFromTime t = MonthFromTime t'"
    "DateFromTime t = DateFromTime t'" "WeekDay t = WeekDay t'"
  using assms
  by (simp_all add: YearFromTime_def MonthFromTime_def DateFromTime_def WeekDay_def
      DayWithinYear_def InLeapYear_def)

lemma TimeClip_Some: "\<bar>t\<bar> \<le> 8640000000000000 \<Longrightarrow> TimeClip t = Some t"
  by (simp add: TimeClip_def)

lemma setDate_shift:
  assumes "\<bar>t + k * msPerDay\<bar> \<le> 8640000000000000"
  shows "setDate e (Some t) (Some (DateFromTime (LocalTime e t) + k)) = Some (t + k * msPerDay)"
proof -
  have "MakeDate (Day (LocalTime e t) + k) (TimeWithinDay (LocalTime e t))
        = LocalTime e t + k * msPerDay"
    using Day_decomp [of "LocalTime e t"] by (simp add: MakeDate_def algebra_simps)
  then have "UTC e (MakeDate (Day (LocalTime e t) + k) (TimeWithinDay (LocalTime e t)))
        = t + k * msPerDay"
    by (simp add: UTC_def LocalTime_def)
  with assms show ?thesis
    by (simp add: setDate_def Let_def MakeDay_fields TimeClip_Some)
qed

lemma monday_bounds:
  "mostRecentMonday e \<le> today e \<and> today e < mostRecentMonday e + 7"
proof -
  have "0 \<le> (WeekDay (LocalTime e (now e)) + 6) mod 7 \<and> (WeekDay (LocalTime e (now e)) + 6) mod 7 < 7"
    by simp
  then show ?thesis unfolding mostRecentMonday_def by linarith
qed

lemma monday_is_Monday: "WeekDay (mostRecentMonday e * msPerDay) = 1"
  unfolding WeekDay_def Day_mult mostRecentMonday_def today_def by presburger

lemma midnight_today:
  "now e - msPerDay < UTC e (today e * msPerDay) \<and> UTC e (today e * msPerDay) \<le> now e"
  using Day_bounds [of "LocalTime e (now e)"]
  by (simp add: today_def UTC_def LocalTime_def)

lemma getStartOfWeek_eq:
  assumes "validClock e"
  shows "getStartOfWeek e = Some (UTC e (mostRecentMonday e * msPerDay))"
proof -
  define lt where "lt = LocalTime e (now e)"
  define w where "w = WeekDay lt"
  define k where "k = - w + (if w = 0 then - 6 else 1)"
  have rng: "\<bar>now e\<bar> + 7 * msPerDay \<le> 8640000000000000"
    and yr: "YearFromTime lt < 0 \<or> 99 < YearFromTime lt"
    using assms by (simp_all add: validClock_def lt_def)
  have w_rng: "0 \<le> w \<and> w < 7" by (simp add: w_def WeekDay_def)
  have k_rng: "- 6 \<le> k \<and> k \<le> 0" using w_rng by (auto simp: k_def)
  have mon: "today e + k = mostRecentMonday e"
  proof -
    have "(w + 6) mod 7 = - k"
    proof (cases "w = 0")
      case True
      then show ?thesis by (simp add: k_def)
    next
      case False
      with w_rng have "(w + 6) mod 7 = w - 1" by presburger
      with False show ?thesis by (simp add: k_def)
    qed
    then show ?thesis
      by (simp add: mostRecentMonday_def w_def lt_def)
  qed
  have ms: "msPerDay = 86400000" by (simp add: msPerDay_def)
  define t1 where "t1 = UTC e (today e * msPerDay)"
  have t1_rng: "now e - msPerDay < t1 \<and> t1 \<le> now e"
    unfolding t1_def by (rule midnight_today)
  have lt1: "LocalTime e t1 = today e * msPerDay"
    by (simp add: t1_def UTC_def LocalTime_def)
  have day1: "Day (LocalTime e t1) = Day lt"
    by (simp add: lt1 Day_mult today_def lt_def)
  have d: "newDate3 e (getFullYear e (Some (now e))) (getMonth e (Some (now e)))
             (getDate e (Some (now e))) = Some t1"
  proof -
    have "MakeDay (YearFromTime lt) (MonthFromTime lt) (DateFromTime lt) = Day lt"
      using MakeDay_fields [of lt 0] by simp
    moreover have "\<bar>t1\<bar> \<le> 8640000000000000"
      using t1_rng rng unfolding ms by linarith
    ultimately show ?thesis using yr
      by (auto simp: newDate3_def getFullYear_def getMonth_def getDate_def Let_def
          lt_def [symmetric] MakeDate_def t1_def today_def TimeClip_Some)
  qed
  have diff: "(case (getDate e (Some t1), getDay e (Some t1)) of
                 (Some dd, Some dy) \<Rightarrow> Some (dd - dy + (if dy = 0 then - 6 else 1))
               | _ \<Rightarrow> None) = Some (DateFromTime (LocalTime e t1) + k)"
    using fields_of_Day(4) [OF day1]
    by (simp add: getDate_def getDay_def k_def w_def)
  have t2_rng: "\<bar>t1 + k * msPerDay\<bar> \<le> 8640000000000000"
    using t1_rng k_rng rng unfolding ms by linarith
  have d1: "setDate e (Some t1) (Some (DateFromTime (LocalTime e t1) + k))
            = Some (t1 + k * msPerDay)"
    by (rule setDate_shift [OF t2_rng])
  have t2: "t1 + k * msPerDay = UTC e (mostRecentMonday e * msPerDay)"
    unfolding t1_def mon [symmetric] by (simp add: UTC_def algebra_simps)
  have "setHours0 e (Some (UTC e (mostRecentMonday e * msPerDay)))
        = Some (UTC e (mostRecentMonday e * msPerDay))"
    using t2_rng unfolding t2
    by (simp add: setHours0_def UTC_def LocalTime_def Day_mult MakeDate_def TimeClip_Some)
  then show ?thesis
    unfolding getStartOfWeek_def Let_def d diff d1 t2 .
qed

lemma decimal_digits: "list_all isDigit (decimal n)"
proof (induction n rule: decimal.induct)
  case (1 n)
  show ?case
  proof (cases "n < 10")
    case True
    then show ?thesis by (subst decimal.simps) (simp add: isDigit_def)
  next
    case False
    have "isDigit (48 + n mod 10)" by (simp add: isDigit_def)
    with False 1 show ?thesis
      by (subst decimal.simps) simp
  qed
qed

lemma decimal_nonempty: "decimal n \<noteq> []"
  by (subst decimal.simps) simp

lemma decimalValue_snoc: "decimalValue (s @ [c]) = 10 * decimalValue s + int (c - 48)"
  by (simp add: decimalValue_def)

lemma decimalValue_decimal: "decimalValue (decimal n) = int n"
proof (induction n rule: decimal.induct)
  case (1 n)
  show ?case
  proof (cases "n < 10")
    case True
    then show ?thesis by (subst decimal.simps) (simp add: decimalValue_def)
  next
    case False
    with 1 have "decimalValue (decimal (n div 10)) = int (n div 10)" by simp
    moreover have "int n = int (10 * (n div 10) + n mod 10)" by simp
    then have "int n = 10 * int (n div 10) + int (n mod 10)"
      by (simp only: of_nat_add of_nat_mult of_nat_numeral)
    ultimately show ?thesis using False
      by (subst decimal.simps) (simp add: decimalValue_snoc)
  qed
qed

lemma decimalValue_zeros: "decimalValue (replicate k 48 @ s) = decimalValue s"
  by (induction k) (simp_all add: decimalValue_def)

lemma digit_not_space: "isDigit c \<Longrightarrow> \<not> isWhiteSpace c"
  by (auto simp: isDigit_def isWhiteSpace_def)

lemma digit_not_hyphen: "isDigit c \<Longrightarrow> c \<noteq> hyphen"
  by (auto simp: isDigit_def hyphen_def)

lemma dropWhile_digits: "list_all isDigit s \<Longrightarrow> dropWhile isWhiteSpace s = s"
  by (cases s) (simp_all add: digit_not_space)

lemma trim_digits: "list_all isDigit s \<Longrightarrow> trim s = s"
proof -
  assume a: "list_all isDigit s"
  then have "list_all isDigit (rev s)" by (simp add: list_all_iff)
  with a show ?thesis by (simp add: trim_def dropWhile_digits)
qed

lemma Number_digits: "list_all isDigit s \<Longrightarrow> s \<noteq> [] \<Longrightarrow> Number s = Some (decimalValue s)"
  by (simp add: Number_def trim_digits)

lemma split_not_Nil: "split sep s \<noteq> []"
  by (induction s) (auto split: list.splits)

lemma split_single: "sep \<notin> set a \<Longrightarrow> split sep a = [a]"
  by (induction a) auto

lemma split_append: "sep \<notin> set a \<Longrightarrow> split sep (a @ sep # b) = a # split sep b"
  by (induction a) auto

lemma zeros_digits: "list_all isDigit (replicate k 48)"
  by (induction k) (simp_all add: isDigit_def)

lemma div_between:
  "lo \<le> x \<Longrightarrow> x \<le> hi \<Longrightarrow> 0 < k \<Longrightarrow> lo div k \<le> x div k \<and> x div k \<le> hi div (k::int)"
  by (simp add: zdiv_mono1)

lemma pad4_digits: "list_all isDigit (pad4 y) \<and> pad4 y \<noteq> [] \<and> decimalValue (pad4 y) = int (nat y)"
  using decimal_digits [of "nat y"] decimal_nonempty [of "nat y"]
  by (simp add: pad4_def decimalValue_zeros decimalValue_decimal zeros_digits)

lemma pad2_digits: "list_all isDigit (pad2 m) \<and> pad2 m \<noteq> [] \<and> decimalValue (pad2 m) = int (nat m)"
proof -
  have "decimalValue (48 # decimal (nat m)) = int (nat m)"
    using decimalValue_zeros [of 1 "decimal (nat m)"] by (simp add: decimalValue_decimal)
  then show ?thesis
    using decimal_digits [of "nat m"] decimal_nonempty [of "nat m"]
    by (simp add: pad2_def decimalValue_decimal isDigit_def)
qed

lemma digits_no_hyphen: "list_all isDigit s \<Longrightarrow> hyphen \<notin> set s"
  using digit_not_hyphen by (auto simp: list_all_iff)

lemma parts_dateString:
  assumes "0 \<le> y" "0 \<le> m" "0 \<le> d"
  shows "map Number (split hyphen (dateString y m d)) = [Some y, Some m, Some d]"
proof -
  have "split hyphen (dateString y m d) = [pad4 y, pad2 m, pad2 d]"
    using pad4_digits [of y] pad2_digits [of m] pad2_digits [of d]
    by (simp add: dateString_def split_append split_single digits_no_hyphen)
  then show ?thesis
    using assms pad4_digits [of y] pad2_digits [of m] pad2_digits [of d]
    by (simp add: Number_digits)
qed

lemma monthStart_bounds: "0 \<le> monthStart l m \<and> monthStart l m \<le> 335"
  by (simp add: monthStart_def Let_def)

lemma dayNumber_bounds:
  assumes "100 \<le> y" "y \<le> 9999" "1 \<le> m" "m \<le> 12" "1 \<le> d" "d \<le> 31"
  shows "\<bar>dayNumber y m d\<bar> \<le> 3000000"
proof -
  define a b c where "a = (y - 1969) div 4" and "b = (y - 1901) div 100"
    and "c = (y - 1601) div 400"
  define s where "s = monthStart (leapYear y) (m - 1)"
  have a: "- 468 \<le> a \<and> a \<le> 2008"
    using div_between [of "- 1869" "y - 1969" 8030 4] assms unfolding a_def by simp
  have b: "- 19 \<le> b \<and> b \<le> 81"
    using div_between [of "- 1801" "y - 1901" 8098 100] assms unfolding b_def by simp
  have c: "- 4 \<le> c \<and> c \<le> 21"
    using div_between [of "- 1501" "y - 1601" 8398 400] assms unfolding c_def by simp
  have s: "0 \<le> s \<and> s \<le> 335"
    unfolding s_def by (rule monthStart_bounds)
  have "(m - 1) div 12 = 0" "(m - 1) mod 12 = m - 1"
    using assms by simp_all
  then have eq: "dayNumber y m d = 365 * y - 719050 + a - b + c + s + d - 1"
    by (simp add: dayNumber_def MakeDay_def DayFromYear_def a_def b_def c_def s_def)
  have "dayNumber y m d \<le> 3000000"
    unfolding eq using a b c s assms by linarith
  moreover have "- 3000000 \<le> dayNumber y m d"
    unfolding eq using a b c s assms by linarith
  ultimately show ?thesis by linarith
qed

section \<open>The unified activity in the words of the specification\<close>

text \<open>
  The history a user holds for a platform (none when the platform has no stored stats), the
  sum of a history's counts on one date, and the sum of a date-to-count map over the
  dates inside the current week.
\<close>

definition held :: "platform_stats option \<Rightarrow> activity list" where
  "held p = (case p of None \<Rightarrow> [] | Some s \<Rightarrow> history s)"

definition countOn :: "activity list \<Rightarrow> jsstring \<Rightarrow> int" where
  "countOn h d = sum_list (map count' (filter (\<lambda>a. date a = d) h))"

definition inWindowTotal :: "env \<Rightarrow> (jsstring \<times> int) list \<Rightarrow> int" where
  "inWindowTotal e m = sum_list (map snd (filter (\<lambda>(d, c). isDateInCurrentWeek e (Str d)) m))"

section \<open>Properties of merging\<close>

lemma foldl_count: "foldl (\<lambda>acc curr. acc + count' curr) z xs = z + sum_list (map count' xs)"
  by (induction xs arbitrary: z) simp_all

lemma inWindowTotal_update:
  "inWindowTotal e (AList.update k v m)
   = inWindowTotal e m
     + (if isDateInCurrentWeek e (Str k)
        then v - (case map_of m k of None \<Rightarrow> 0 | Some w \<Rightarrow> w) else 0)"
  by (induction m) (auto simp: inWindowTotal_def)

lemma inWindowTotal_mergeEntry:
  "inWindowTotal e (mergeEntry m a)
   = inWindowTotal e m + (if isDateInCurrentWeek e (Str (date a)) then count' a else 0)"
  by (simp add: mergeEntry_def inWindowTotal_update)

lemma inWindowTotal_foldl:
  "inWindowTotal e (foldl mergeEntry m h)
   = inWindowTotal e m
     + sum_list (map count' (filter (\<lambda>a. isDateInCurrentWeek e (Str (date a))) h))"
  by (induction h arbitrary: m) (simp_all add: inWindowTotal_mergeEntry)

lemma inWindowTotal_merge:
  "inWindowTotal e (merge hist m) = inWindowTotal e m + sumWeekly e hist"
  by (cases hist) (simp_all add: merge_def sumWeekly_def inWindowTotal_foldl foldl_count)

lemma distinct_mergeEntry: "distinct (map fst m) \<Longrightarrow> distinct (map fst (mergeEntry m a))"
  by (simp add: mergeEntry_def distinct_update)

lemma distinct_merge: "distinct (map fst m) \<Longrightarrow> distinct (map fst (merge hist m))"
proof (cases hist)
  case None
  then show "distinct (map fst m) \<Longrightarrow> ?thesis" by (simp add: merge_def)
next
  case (Some h)
  have "distinct (map fst m) \<Longrightarrow> distinct (map fst (foldl mergeEntry m h))"
    by (induction h arbitrary: m) (simp_all add: distinct_mergeEntry)
  with Some show "distinct (map fst m) \<Longrightarrow> ?thesis" by (simp add: merge_def)
qed

lemma countOn_absent: "d \<notin> date ` set h \<Longrightarrow> countOn h d = 0"
  by (induction h) (auto simp: countOn_def)

lemma countOn_Cons: "countOn (a # h) d = (if date a = d then count' a else 0) + countOn h d"
  by (simp add: countOn_def)

lemma map_of_foldl_mergeEntry:
  "map_of (foldl mergeEntry m h) d
   = (if d \<in> date ` set h
      then Some ((case map_of m d of None \<Rightarrow> 0 | Some v \<Rightarrow> v) + countOn h d)
      else map_of m d)"
proof (induction h arbitrary: m)
  case Nil
  then show ?case by simp
next
  case (Cons a h)
  show ?case
    using countOn_absent [of d h]
    by (simp add: Cons.IH countOn_Cons) (auto simp: mergeEntry_def update_conv')
qed

lemma map_of_merge_held:
  "map_of (merge (map_option history p) m) d
   = (if d \<in> date ` set (held p)
      then Some ((case map_of m d of None \<Rightarrow> 0 | Some v \<Rightarrow> v) + countOn (held p) d)
      else map_of m d)"
  by (cases p) (simp_all add: merge_def held_def map_of_foldl_mergeEntry)

section \<open>Properties of sorting\<close>

lemma mset_insertBy: "mset (insertBy cmp x ys) = add_mset x (mset ys)"
  by (induction ys) simp_all

lemma mset_sortBy: "mset (sortBy cmp xs) = mset xs"
  by (induction xs) (simp_all add: sortBy_def mset_insertBy)

lemma set_insertBy: "set (insertBy cmp x ys) = insert x (set ys)"
  by (induction ys) auto

lemma sorted_insertBy:
  assumes "\<And>a b. cmp a b \<le> 0 \<longleftrightarrow> key b \<le> (key a :: int)"
  shows "sorted_wrt (\<lambda>a b. key b \<le> key a) ys
         \<Longrightarrow> sorted_wrt (\<lambda>a b. key b \<le> key a) (insertBy cmp x ys)"
proof (induction ys)
  case Nil
  then show ?case by simp
next
  case (Cons y ys)
  show ?case
  proof (cases "cmp x y \<le> 0")
    case True
    with Cons.prems assms have "\<forall>z\<in>set (y # ys). key z \<le> key x"
      by force
    with True Cons.prems show ?thesis by simp
  next
    case False
    with assms have "key x \<le> key y" by (metis linear)
    with False Cons show ?thesis by (auto simp: set_insertBy)
  qed
qed

lemma sorted_sortBy:
  assumes "\<And>a b. cmp a b \<le> 0 \<longleftrightarrow> key b \<le> (key a :: int)"
  shows "sorted_wrt (\<lambda>a b. key b \<le> key a) (sortBy cmp xs)"
  by (induction xs) (simp_all add: sortBy_def sorted_insertBy [OF assms])

lemma filter_insertBy:
  assumes "\<And>a b. cmp a b \<le> 0 \<longleftrightarrow> key b \<le> (key a :: int)"
  shows "filter (\<lambda>r. key r = k) (insertBy cmp x ys)
         = (if key x = k then x # filter (\<lambda>r. key r = k) ys else filter (\<lambda>r. key r = k) ys)"
  using assms by (induction ys) auto

lemma filter_sortBy:
  assumes "\<And>a b. cmp a b \<le> 0 \<longleftrightarrow> key b \<le> (key a :: int)"
  shows "filter (\<lambda>r. key r = k) (sortBy cmp xs) = filter (\<lambda>r. key r = k) xs"
  by (induction xs) (simp_all add: sortBy_def filter_insertBy [OF assms])

section \<open>Properties of the Codeforces loop\<close>

text \<open>
  What holds of \<open>(dailySolved, totalUnique)\<close> throughout the loop: \<open>totalUnique\<close> has
  no repetition, and every day's set is non-empty, without repetition, and inside
  \<open>totalUnique\<close>.
\<close>

definition cf_inv :: "cf_state \<Rightarrow> bool" where
  "cf_inv st = (case st of (dailySolved, totalUnique) \<Rightarrow>
     distinct totalUnique
     \<and> list_all (\<lambda>(d, s). s \<noteq> [] \<and> distinct s \<and> set s \<subseteq> set totalUnique) dailySolved)"

lemma set_add_props:
  "distinct s \<Longrightarrow> distinct (set_add x s)" "set (set_add x s) = insert x (set s)" "set_add x s \<noteq> []"
  by (auto simp: set_add_def)

lemma update_member: "p \<in> set (AList.update k v al) \<Longrightarrow> p = (k, v) \<or> p \<in> set al"
  by (induction al) (auto split: if_splits)

lemma cf_step_inv:
  assumes "cf_inv st" and "cf_step e sub st = Some st'"
  shows "cf_inv st'"
proof -
  obtain daily tot where st: "st = (daily, tot)" by (cases st)
  from assms(1) st have dt: "distinct tot"
    and all: "\<And>d s. (d, s) \<in> set daily \<Longrightarrow> s \<noteq> [] \<and> distinct s \<and> set s \<subseteq> set tot"
    by (auto simp: cf_inv_def list_all_iff)
  show ?thesis
  proof (cases "verdict sub = Some (js ''OK'')")
    case False
    with assms st show ?thesis by (simp add: cf_step_def)
  next
    case True
    with assms(2) st obtain p where p: "problem sub = Some p"
      by (cases "problem sub") (simp_all add: cf_step_def)
    define pid where "pid = problemId p"
    define tot' where "tot' = set_add pid tot"
    have dt': "distinct tot'" and sub': "set tot \<subseteq> set tot'" and pin: "pid \<in> set tot'"
      using dt by (auto simp: tot'_def set_add_props)
    have same: "cf_inv (daily, tot')"
      using dt' sub' all by (fastforce simp: cf_inv_def list_all_iff)
    show ?thesis
    proof (cases "truthy (creationTimeSeconds sub)")
      case False
      with assms(2) st \<open>verdict sub = Some (js ''OK'')\<close> p have "st' = (daily, tot')"
        by (auto simp: cf_step_def Let_def pid_def tot'_def)
      with same show ?thesis by simp
    next
      case ts: True
      define d where "d = getLocalDate e (creationTimeSeconds sub)"
      define day where "day = (case map_of daily d of None \<Rightarrow> [] | Some s \<Rightarrow> s)"
      have st': "st' = (AList.update d (set_add pid day) daily, tot')"
        using assms(2) st \<open>verdict sub = Some (js ''OK'')\<close> p ts
        by (simp add: cf_step_def Let_def pid_def tot'_def d_def day_def)
      have day: "distinct day \<and> set day \<subseteq> set tot"
      proof (cases "map_of daily d")
        case None
        then show ?thesis by (simp add: day_def)
      next
        case (Some s)
        then have "(d, s) \<in> set daily" by (rule map_of_SomeD)
        with all Some show ?thesis by (simp add: day_def)
      qed
      have "s \<noteq> [] \<and> distinct s \<and> set s \<subseteq> set tot'"
        if "(k, s) \<in> set (AList.update d (set_add pid day) daily)" for k s
      proof -
        from update_member [OF that] show ?thesis
        proof
          assume "(k, s) = (d, set_add pid day)"
          with day sub' pin show ?thesis by (auto simp: set_add_props)
        next
          assume "(k, s) \<in> set daily"
          with all sub' show ?thesis by blast
        qed
      qed
      with dt' show ?thesis
        unfolding st' cf_inv_def by (auto simp: list_all_iff)
    qed
  qed
qed

lemma cf_forEach_inv:
  "cf_inv st \<Longrightarrow> cf_forEach e subs st = Some st' \<Longrightarrow> cf_inv st'"
proof (induction subs arbitrary: st)
  case Nil
  then show ?case by simp
next
  case (Cons sub subs)
  from Cons.prems(2) obtain st1 where s1: "cf_step e sub st = Some st1"
    and rest: "cf_forEach e subs st1 = Some st'"
    by (auto split: option.splits)
  from cf_step_inv [OF Cons.prems(1) s1] have "cf_inv st1" .
  from Cons.IH [OF this rest] show ?case .
qed

section \<open>Crediting in the words of the specification\<close>

text \<open>
  What one submission credits: the day and the problem, when it is accepted and its
  \<open>creationTimeSeconds\<close> is truthy.
\<close>

definition credit :: "env \<Rightarrow> submission \<Rightarrow> (jsstring \<times> jsstring) option" where
  "credit e sub =
     (if verdict sub = Some (js ''OK'') then
        (case problem sub of
           Some p \<Rightarrow>
             if truthy (creationTimeSeconds sub)
             then Some (getLocalDate e (creationTimeSeconds sub), problemId p) else None
         | None \<Rightarrow> None)
      else None)"

definition solvedOn :: "env \<Rightarrow> submission list \<Rightarrow> jsstring \<Rightarrow> jsstring set" where
  "solvedOn e subs d = {pid. Some (d, pid) \<in> credit e ` set subs}"

definition dayList :: "(jsstring \<times> jsstring list) list \<Rightarrow> jsstring \<Rightarrow> jsstring list" where
  "dayList daily d = (case map_of daily d of None \<Rightarrow> [] | Some s \<Rightarrow> s)"

text \<open>The problems with an accepted submission, whatever its time.\<close>

definition acceptedProblems :: "submission list \<Rightarrow> jsstring set" where
  "acceptedProblems subs =
     {problemId p |sub p. sub \<in> set subs \<and> verdict sub = Some (js ''OK'') \<and> problem sub = Some p}"

section \<open>An example run\<close>

text \<open>
  A clock on Wednesday 2024-01-03, 00:00 UTC, and two accepted submissions of problem
  1-A, on 2024-01-01 and on 2024-01-02.
\<close>

definition exampleClock :: env where
  "exampleClock = \<lparr>now = 1704240000000, tz = 0\<rparr>"

definition exampleSubmissions :: "submission list" where
  "exampleSubmissions =
     [\<lparr>verdict = Some (js ''OK''), problem = Some \<lparr>contestId = Some 1, index = js ''A''\<rparr>,
       creationTimeSeconds = JNum 1704067200\<rparr>,
      \<lparr>verdict = Some (js ''OK''), problem = Some \<lparr>contestId = Some 1, index = js ''A''\<rparr>,
       creationTimeSeconds = JNum 1704153600\<rparr>]"



text \<open>
  A user tracked on both platforms with stored stats, and a network on which LeetCode
  answers and the Codeforces request fails.
\<close>

definition exampleUser :: user where
  "exampleUser =
     \<lparr>id' = 1, username = js ''ann'',
      handles = \<lparr>h_leetcode = js ''ann'', h_codeforces = js ''ann''\<rparr>,
      data = \<lparr>leetcode = Some \<lparr>totalSolved = 3, history = []\<rparr>,
              codeforces = Some \<lparr>totalSolved = 9, history = []\<rparr>\<rparr>\<rparr>"

definition exampleNetwork :: network where
  "exampleNetwork =
     \<lparr>lcAnswer = (\<lambda>h. LcJson (Some (js ''success'')) 7 None),
      cfAnswer = (\<lambda>h. CfRejected)\<rparr>"

lemma example_dates:
  "getLocalDate exampleClock (JNum 1704067200) = js ''2024-01-01''"
  "getLocalDate exampleClock (JNum 1704153600) = js ''2024-01-02''"
  "toLocaleDateString exampleClock (Some (now exampleClock)) = js ''2024-01-03''"
  by code_simp+

lemma example_fetch:
  "fetchCodeforcesData exampleClock (CfJson (Some (js ''OK'')) (Some exampleSubmissions))
   = Some \<lparr>totalSolved = 1,
           history = [\<lparr>date = js ''2024-01-01'', count' = 1\<rparr>,
                      \<lparr>date = js ''2024-01-02'', count' = 1\<rparr>]\<rparr>"
  by (simp add: fetchCodeforcesData_def exampleSubmissions_def cf_step_def example_dates
      problemId_def set_add_def Let_def)
    (simp add: js_def)




section \<open>Properties of the fetchers\<close>

lemma dayList_Nil: "dayList [] d = []"
  by (simp add: dayList_def)

lemma solvedOn_Nil: "solvedOn e [] d = {}"
  by (simp add: solvedOn_def)

lemma solvedOn_Cons:
  "solvedOn e (sub # subs) d
   = (case credit e sub of
        Some (d', pid) \<Rightarrow> if d' = d then {pid} else {}
      | None \<Rightarrow> {}) \<union> solvedOn e subs d"
  by (auto simp: solvedOn_def split: option.splits)

lemma cf_step_dayList:
  assumes "cf_step e sub (daily, tot) = Some (daily', tot')"
  shows "set (dayList daily' d)
         = set (dayList daily d)
           \<union> (case credit e sub of
                Some (d', pid) \<Rightarrow> if d' = d then {pid} else {}
              | None \<Rightarrow> {})"
    and "distinct (map fst daily) \<Longrightarrow> distinct (map fst daily')"
  using assms
  by (auto simp: cf_step_def credit_def dayList_def Let_def update_conv' set_add_def
      distinct_update
      split: if_splits option.splits)

lemma cf_forEach_dayList:
  "cf_forEach e subs (daily, tot) = Some (daily', tot') \<Longrightarrow>
   set (dayList daily' d) = set (dayList daily d) \<union> solvedOn e subs d
   \<and> (distinct (map fst daily) \<longrightarrow> distinct (map fst daily'))"
proof (induction subs arbitrary: daily tot)
  case Nil
  then show ?case by (simp add: solvedOn_Nil)
next
  case (Cons sub subs)
  from Cons.prems obtain d1 t1 where s1: "cf_step e sub (daily, tot) = Some (d1, t1)"
    and rest: "cf_forEach e subs (d1, t1) = Some (daily', tot')"
    by (auto split: option.splits)
  from Cons.IH [OF rest] cf_step_dayList(1) [OF s1, where d = d] cf_step_dayList(2) [OF s1]
  show ?case by (auto simp: solvedOn_Cons)
qed

lemma map_of_history:
  "map_of (map (\<lambda>a. (date a, count' a))
             (map (\<lambda>(d, s). \<lparr>date = d, count' = int (length s)\<rparr>) daily)) d
   = map_option (\<lambda>s. int (length s)) (map_of daily d)"
  by (induction daily) auto

lemma dates_of_history:
  "map date (map (\<lambda>(d, s). \<lparr>date = d, count' = int (length s)\<rparr>) daily) = map fst daily"
  by (induction daily) auto

lemma acceptedProblems_Nil: "acceptedProblems [] = {}"
  by (simp add: acceptedProblems_def)

lemma acceptedProblems_Cons:
  "acceptedProblems (sub # subs)
   = (if verdict sub = Some (js ''OK'')
      then (case problem sub of None \<Rightarrow> {} | Some p \<Rightarrow> {problemId p}) else {})
     \<union> acceptedProblems subs"
  by (auto simp: acceptedProblems_def split: option.splits)

lemma cf_step_total:
  assumes "cf_step e sub (daily, tot) = Some (daily', tot')"
  shows "set tot' = set tot \<union> acceptedProblems [sub]"
  using assms
  by (auto simp: cf_step_def Let_def set_add_def acceptedProblems_Cons acceptedProblems_Nil
      split: if_splits option.splits)

lemma cf_forEach_total:
  "cf_forEach e subs (daily, tot) = Some (daily', tot') \<Longrightarrow>
   set tot' = set tot \<union> acceptedProblems subs"
proof (induction subs arbitrary: daily tot)
  case Nil
  then show ?case by (simp add: acceptedProblems_Nil)
next
  case (Cons sub subs)
  from Cons.prems obtain d1 t1 where s1: "cf_step e sub (daily, tot) = Some (d1, t1)"
    and rest: "cf_forEach e subs (d1, t1) = Some (daily', tot')"
    by (auto split: option.splits)
  from Cons.IH [OF rest] cf_step_total [OF s1]
  show ?case
    by (simp add: acceptedProblems_Cons [of sub subs] acceptedProblems_Cons [of sub "[]"]
        acceptedProblems_Nil Un_assoc)
qed

lemma totalSolved_of_run:
  assumes "fetchCodeforcesData e (CfJson st (Some subs)) = Some stats"
  shows "totalSolved stats = int (card (acceptedProblems subs))"
proof -
  from assms obtain daily tot where
    run: "cf_forEach e subs ([], []) = Some (daily, tot)"
    and stats: "totalSolved stats = int (length tot)"
    by (auto simp: fetchCodeforcesData_def split: if_splits option.splits)
  have "cf_inv ([], [])" by (simp add: cf_inv_def)
  from cf_forEach_inv [OF this run] have "distinct tot"
    by (simp add: cf_inv_def)
  moreover from cf_forEach_total [OF run] have "set tot = acceptedProblems subs" by simp
  ultimately show ?thesis using stats
    by (metis distinct_card)
qed











section \<open>Claims\<close>

text \<open>
  C1, the claim as stated, fails: problem 1-A, accepted on 2024-01-01 and again on
  2024-01-02, is counted in the history of both days, while \<open>totalSolved\<close> counts it
  once.
\<close>

theorem fetchCodeforcesData_credits_both_days:
  "fetchCodeforcesData exampleClock (CfJson (Some (js ''OK'')) (Some exampleSubmissions))
   = Some \<lparr>totalSolved = 1,
           history = [\<lparr>date = js ''2024-01-01'', count' = 1\<rparr>,
                      \<lparr>date = js ''2024-01-02'', count' = 1\<rparr>]\<rparr>"
  by (rule example_fetch)

text \<open>
  C1 (as the code has it). In the history of a successful Codeforces fetch, a day's count
  is the number of distinct problems with an accepted submission that has a truthy
  \<open>creationTimeSeconds\<close> and that \<open>getLocalDate\<close> places on that local day, and
  the history has one record per such day: the adapter dedupes by problem within each
  day, and a problem accepted on several days counts on each of them.
  \<open>totalSolved\<close> is the number of distinct accepted problems.
\<close>

theorem fetchCodeforcesData_history:
  assumes "fetchCodeforcesData e (CfJson st (Some subs)) = Some stats"
  shows "map_of (map (\<lambda>a. (date a, count' a)) (history stats)) d
           = (if solvedOn e subs d = {} then None else Some (int (card (solvedOn e subs d))))
         \<and> distinct (map date (history stats))
         \<and> totalSolved stats = int (card (acceptedProblems subs))"
proof -
  from assms obtain daily tot where
    run: "cf_forEach e subs ([], []) = Some (daily, tot)"
    and stats: "stats = \<lparr>totalSolved = int (length tot),
                  history = map (\<lambda>(d, s). \<lparr>date = d, count' = int (length s)\<rparr>) daily\<rparr>"
    by (auto simp: fetchCodeforcesData_def split: if_splits option.splits)
  have "cf_inv ([], [])" by (simp add: cf_inv_def)
  from cf_forEach_inv [OF this run]
  have all: "\<And>k s. (k, s) \<in> set daily \<Longrightarrow> s \<noteq> [] \<and> distinct s"
    by (auto simp: cf_inv_def list_all_iff)
  from cf_forEach_dayList [OF run, where d = d]
  have sets: "set (dayList daily d) = solvedOn e subs d" and dk: "distinct (map fst daily)"
    by (simp_all add: dayList_Nil)
  have h: "history stats = map (\<lambda>(d, s). \<lparr>date = d, count' = int (length s)\<rparr>) daily"
    by (simp add: stats)
  have m: "map_of (map (\<lambda>a. (date a, count' a)) (history stats)) d
           = map_option (\<lambda>s. int (length s)) (map_of daily d)"
    unfolding h by (rule map_of_history)
  have dd: "map date (history stats) = map fst daily"
    unfolding h by (rule dates_of_history)
  have "map_option (\<lambda>s. int (length s)) (map_of daily d)
        = (if solvedOn e subs d = {} then None else Some (int (card (solvedOn e subs d))))"
  proof (cases "map_of daily d")
    case None
    with sets show ?thesis by (simp add: dayList_def)
  next
    case (Some s)
    then have "(d, s) \<in> set daily" by (rule map_of_SomeD)
    from all [OF this] have "s \<noteq> []" "distinct s" by simp_all
    moreover from sets Some have "set s = solvedOn e subs d" by (simp add: dayList_def)
    ultimately show ?thesis using Some
      by (metis distinct_card option.simps(9) set_empty)
  qed
  with dk totalSolved_of_run [OF assms] show ?thesis
    unfolding m dd by simp
qed

theorem fetchCodeforcesData_history_witness:
  "fetchCodeforcesData exampleClock (CfJson (Some (js ''OK'')) (Some exampleSubmissions))
     = Some \<lparr>totalSolved = 1,
             history = [\<lparr>date = js ''2024-01-01'', count' = 1\<rparr>,
                        \<lparr>date = js ''2024-01-02'', count' = 1\<rparr>]\<rparr>
   \<and> int (card (solvedOn exampleClock exampleSubmissions (js ''2024-01-02''))) = 1"
proof -
  have "map_of (map (\<lambda>a. (date a, count' a))
                 [\<lparr>date = js ''2024-01-01'', count' = 1\<rparr>, \<lparr>date = js ''2024-01-02'', count' = 1\<rparr>])
          (js ''2024-01-02'') = Some 1"
    by (simp add: js_def)
  with fetchCodeforcesData_history [OF example_fetch, of "js ''2024-01-02''"]
  have "int (card (solvedOn exampleClock exampleSubmissions (js ''2024-01-02''))) = 1"
    by (simp split: if_splits)
  with example_fetch show ?thesis by simp
qed




text \<open>
  C3. On a valid clock and for the date string of a calendar date from the year 100 on,
  \<open>isDateInCurrentWeek\<close> holds exactly when the date's day number lies in the
  half-open week that starts at the most recent Monday. \<open>getStartOfWeek\<close> is the
  local midnight of that Monday, which is a Monday on or before today and less than
  seven days before it; so the Monday itself and the Sunday six days later are in the
  window and the next Monday is not.
\<close>

theorem isDateInCurrentWeek_window:
  assumes "validClock e"
    and "100 \<le> y" "y \<le> 9999" "1 \<le> m" "m \<le> 12" "1 \<le> d" "d \<le> 31"
  shows "(isDateInCurrentWeek e (Str (dateString y m d))
            \<longleftrightarrow> mostRecentMonday e \<le> dayNumber y m d \<and> dayNumber y m d < mostRecentMonday e + 7)
         \<and> getStartOfWeek e = Some (UTC e (mostRecentMonday e * msPerDay))
         \<and> WeekDay (mostRecentMonday e * msPerDay) = 1
         \<and> mostRecentMonday e \<le> today e \<and> today e < mostRecentMonday e + 7"
proof -
  define s where "s = UTC e (mostRecentMonday e * msPerDay)"
  define x where "x = UTC e (dayNumber y m d * msPerDay)"
  have ms: "msPerDay = 86400000" by (simp add: msPerDay_def)
  have rng: "\<bar>now e\<bar> + 7 * msPerDay \<le> 8640000000000000" and tzr: "\<bar>tz e\<bar> \<le> msPerDay"
    using assms(1) by (simp_all add: validClock_def)
  have start: "getStartOfWeek e = Some s"
    unfolding s_def by (rule getStartOfWeek_eq [OF assms(1)])
  have s_rng: "now e - 7 * msPerDay < s \<and> s \<le> now e"
  proof -
    have "s = UTC e (today e * msPerDay) - (today e - mostRecentMonday e) * msPerDay"
      by (simp add: s_def UTC_def algebra_simps)
    with midnight_today [of e] monday_bounds [of e] show ?thesis
      unfolding ms by simp
  qed
  have "\<bar>s + 7 * msPerDay\<bar> \<le> 8640000000000000"
    using s_rng rng unfolding ms by linarith
  then have "setDate e (Some s) (Some (DateFromTime (LocalTime e s) + 7)) = Some (s + 7 * msPerDay)"
    by (rule setDate_shift)
  then have endw: "setDate e (Some s) (map_option (\<lambda>x. x + 7) (getDate e (Some s)))
                   = Some (s + 7 * msPerDay)"
    by (simp add: getDate_def)
  have nonempty: "dateString y m d \<noteq> []"
    using pad4_digits [of y] by (simp add: dateString_def)
  have parts: "map Number (split hyphen (dateString y m d)) = [Some y, Some m, Some d]"
    using assms by (intro parts_dateString) simp_all
  have "\<bar>x\<bar> \<le> 8640000000000000"
    using dayNumber_bounds [OF assms(2-7)] tzr unfolding x_def UTC_def ms by linarith
  then have dt: "newDate3 e (Some y) (Some (m - 1)) (Some d) = Some x"
    using assms(2) by (simp add: newDate3_def x_def dayNumber_def MakeDate_def TimeClip_Some)
  have "isDateInCurrentWeek e (Str (dateString y m d)) \<longleftrightarrow> x \<ge> s \<and> x < s + 7 * msPerDay"
    by (simp add: isDateInCurrentWeek_def nonempty parts element_def Let_def dt start endw
        timeGe_def timeLt_def)
  also have "\<dots> \<longleftrightarrow> mostRecentMonday e \<le> dayNumber y m d \<and> dayNumber y m d < mostRecentMonday e + 7"
    unfolding x_def s_def UTC_def ms by auto
  finally show ?thesis
    using start monday_is_Monday [of e] monday_bounds [of e] by (simp add: s_def)
qed

theorem isDateInCurrentWeek_window_witness:
  "validClock \<lparr>now = 1704240000000, tz = 0\<rparr>
   \<and> isDateInCurrentWeek \<lparr>now = 1704240000000, tz = 0\<rparr> (Str (js ''2024-01-01''))
   \<and> isDateInCurrentWeek \<lparr>now = 1704240000000, tz = 0\<rparr> (Str (js ''2024-01-07''))
   \<and> \<not> isDateInCurrentWeek \<lparr>now = 1704240000000, tz = 0\<rparr> (Str (js ''2024-01-08''))
   \<and> \<not> isDateInCurrentWeek \<lparr>now = 1704240000000, tz = 0\<rparr> (Str (js ''2023-12-31''))"
proof -
  define e where "e = \<lparr>now = 1704240000000, tz = 0\<rparr>"
  have v: "validClock e" unfolding e_def by code_simp
  have mon: "mostRecentMonday e = 19723" unfolding e_def by code_simp
  have s: "dateString 2024 1 1 = js ''2024-01-01''" "dateString 2024 1 7 = js ''2024-01-07''"
    "dateString 2024 1 8 = js ''2024-01-08''" "dateString 2023 12 31 = js ''2023-12-31''"
    by code_simp+
  have n: "dayNumber 2024 1 1 = 19723" "dayNumber 2024 1 7 = 19729"
    "dayNumber 2024 1 8 = 19730" "dayNumber 2023 12 31 = 19722"
    by code_simp+
  have "isDateInCurrentWeek e (Str (js ''2024-01-01''))"
    using isDateInCurrentWeek_window [OF v, of 2024 1 1] by (simp add: mon s n)
  moreover have "isDateInCurrentWeek e (Str (js ''2024-01-07''))"
    using isDateInCurrentWeek_window [OF v, of 2024 1 7] by (simp add: mon s n)
  moreover have "\<not> isDateInCurrentWeek e (Str (js ''2024-01-08''))"
    using isDateInCurrentWeek_window [OF v, of 2024 1 8] by (simp add: mon s n)
  moreover have "\<not> isDateInCurrentWeek e (Str (js ''2023-12-31''))"
    using isDateInCurrentWeek_window [OF v, of 2023 12 31] by (simp add: mon s n)
  ultimately show ?thesis using v by (simp add: e_def)
qed

text \<open>
  C4. The ranking is a rearrangement of the users with their weekly scores attached, in
  descending order of score, and for every score the users with that score appear in the
  ranking in the order they have in the input: the sort is stable. Attaching the score
  changes nothing else of a user.
\<close>

theorem rankedUsers_stable_sort:
  "mset (rankedUsers e users) = mset (map (withScore e) users)
   \<and> sorted_wrt (\<lambda>a b. weeklyScore b \<le> weeklyScore a) (rankedUsers e users)
   \<and> filter (\<lambda>r. weeklyScore r = k) (rankedUsers e users)
       = filter (\<lambda>r. weeklyScore r = k) (map (withScore e) users)
   \<and> weeklyScore (withScore e u) = calculateWeeklyScore e u
   \<and> user.truncate (withScore e u) = u"
proof -
  have cmp: "weeklyScore b - weeklyScore a \<le> 0 \<longleftrightarrow> weeklyScore b \<le> weeklyScore a"
    for a b :: ranked_user by simp
  have "user.truncate (withScore e u) = u"
    by (simp add: withScore_def user.truncate_def user.extend_def)
  moreover have "weeklyScore (withScore e u) = calculateWeeklyScore e u"
    by (simp add: withScore_def user.extend_def ranked_user.fields_def)
  moreover have "mset (rankedUsers e users) = mset (map (withScore e) users)"
    unfolding rankedUsers_def by (rule mset_sortBy)
  moreover have "sorted_wrt (\<lambda>a b. weeklyScore b \<le> weeklyScore a) (rankedUsers e users)"
    unfolding rankedUsers_def by (rule sorted_sortBy) (rule cmp)
  moreover have "filter (\<lambda>r. weeklyScore r = k) (rankedUsers e users)
       = filter (\<lambda>r. weeklyScore r = k) (map (withScore e) users)"
    unfolding rankedUsers_def by (rule filter_sortBy) (rule cmp)
  ultimately show ?thesis by blast
qed

text \<open>
  C5. The weekly score of a user is the sum, over the dates of the unified activity map
  that are inside the current week, of the map's count; the map has one entry per date.
  A user without stored stats has score 0 and an empty map.
\<close>

theorem calculateWeeklyScore_unified:
  "calculateWeeklyScore e u = inWindowTotal e (historyMap u)
   \<and> distinct (map fst (historyMap u))
   \<and> calculateWeeklyScore e (u\<lparr>data := \<lparr>leetcode = None, codeforces = None\<rparr>\<rparr>) = 0
   \<and> historyMap (u\<lparr>data := \<lparr>leetcode = None, codeforces = None\<rparr>\<rparr>) = []"
proof -
  have "inWindowTotal e (historyMap u) = calculateWeeklyScore e u"
    by (simp add: historyMap_def calculateWeeklyScore_def inWindowTotal_merge)
      (simp add: inWindowTotal_def)
  moreover have "distinct (map fst (historyMap u))"
    unfolding historyMap_def by (intro distinct_merge) simp
  moreover have "calculateWeeklyScore e (u\<lparr>data := \<lparr>leetcode = None, codeforces = None\<rparr>\<rparr>) = 0"
    by (simp add: calculateWeeklyScore_def sumWeekly_def)
  moreover have "historyMap (u\<lparr>data := \<lparr>leetcode = None, codeforces = None\<rparr>\<rparr>) = []"
    by (simp add: historyMap_def merge_def)
  ultimately show ?thesis by simp
qed

text \<open>
  C6. The unified activity map sends a date to the sum of that date's counts in the
  histories the user holds, and has an entry exactly for the dates that occur in one of
  them. Merging \<open>{2024-01-01: 2}\<close> with \<open>{2024-01-01: 3, 2024-01-02: 1}\<close> gives
  \<open>{2024-01-01: 5, 2024-01-02: 1}\<close>, and a user without platform data gives the empty
  map.
\<close>

theorem historyMap_sums:
  "map_of (historyMap u) d
     = (if d \<in> date ` set (held (leetcode (data u))) \<union> date ` set (held (codeforces (data u)))
        then Some (countOn (held (leetcode (data u))) d + countOn (held (codeforces (data u))) d)
        else None)
   \<and> distinct (map fst (historyMap u))
   \<and> historyMap (u\<lparr>data := \<lparr>
          leetcode = Some \<lparr>totalSolved = n1, history = [\<lparr>date = js ''2024-01-01'', count' = 2\<rparr>]\<rparr>,
          codeforces = Some \<lparr>totalSolved = n2, history =
            [\<lparr>date = js ''2024-01-01'', count' = 3\<rparr>, \<lparr>date = js ''2024-01-02'', count' = 1\<rparr>]\<rparr>\<rparr>\<rparr>)
       = [(js ''2024-01-01'', 5), (js ''2024-01-02'', 1)]
   \<and> historyMap (u\<lparr>data := \<lparr>leetcode = None, codeforces = None\<rparr>\<rparr>) = []"
proof -
  have "map_of (historyMap u) d
     = (if d \<in> date ` set (held (leetcode (data u))) \<union> date ` set (held (codeforces (data u)))
        then Some (countOn (held (leetcode (data u))) d + countOn (held (codeforces (data u))) d)
        else None)"
    by (simp add: historyMap_def map_of_merge_held countOn_absent)
  moreover have "distinct (map fst (historyMap u))"
    unfolding historyMap_def by (intro distinct_merge) simp
  moreover have "historyMap (u\<lparr>data := \<lparr>
          leetcode = Some \<lparr>totalSolved = n1, history = [\<lparr>date = js ''2024-01-01'', count' = 2\<rparr>]\<rparr>,
          codeforces = Some \<lparr>totalSolved = n2, history =
            [\<lparr>date = js ''2024-01-01'', count' = 3\<rparr>, \<lparr>date = js ''2024-01-02'', count' = 1\<rparr>]\<rparr>\<rparr>\<rparr>)
       = [(js ''2024-01-01'', 5), (js ''2024-01-02'', 1)]"
    by (simp add: historyMap_def merge_def mergeEntry_def js_def)
  moreover have "historyMap (u\<lparr>data := \<lparr>leetcode = None, codeforces = None\<rparr>\<rparr>) = []"
    by (simp add: historyMap_def merge_def)
  ultimately show ?thesis by simp
qed

text \<open>
  C7. In one sync of a user, a platform whose fetch fails keeps the stats stored before,
  and a platform whose fetch succeeds gets the fetched stats, each whatever happens to
  the other. A fetch fails as a whole, with no stats at all, when the request is
  rejected, when the status is not the expected one, when the result array is missing,
  or when the loop over the submissions throws. \<open>updateUser\<close> stores the outcome in
  the synced user and leaves users with another id as they are.
\<close>

theorem manualSync_platforms_independent:
  "(fetchCodeforcesData e (cfAnswer net (h_codeforces (handles u))) = None
      \<longrightarrow> codeforces (manualSync e net u) = codeforces (data u))
   \<and> (fetchLeetCodeData e (lcAnswer net (h_leetcode (handles u))) = None
      \<longrightarrow> leetcode (manualSync e net u) = leetcode (data u))
   \<and> (h_codeforces (handles u) \<noteq> []
      \<longrightarrow> fetchCodeforcesData e (cfAnswer net (h_codeforces (handles u))) = Some d
      \<longrightarrow> codeforces (manualSync e net u) = Some d)
   \<and> (h_leetcode (handles u) \<noteq> []
      \<longrightarrow> fetchLeetCodeData e (lcAnswer net (h_leetcode (handles u))) = Some d
      \<longrightarrow> leetcode (manualSync e net u) = Some d)
   \<and> (h_codeforces (handles u) = [] \<longrightarrow> codeforces (manualSync e net u) = codeforces (data u))
   \<and> (h_leetcode (handles u) = [] \<longrightarrow> leetcode (manualSync e net u) = leetcode (data u))
   \<and> fetchCodeforcesData e CfRejected = None
   \<and> (st \<noteq> Some (js ''OK'') \<longrightarrow> fetchCodeforcesData e (CfJson st r) = None)
   \<and> fetchCodeforcesData e (CfJson st None) = None
   \<and> (cf_forEach e subs ([], []) = None \<longrightarrow> fetchCodeforcesData e (CfJson st (Some subs)) = None)
   \<and> fetchLeetCodeData e LcRejected = None
   \<and> (st \<noteq> Some (js ''success'') \<longrightarrow> fetchLeetCodeData e (LcJson st n c) = None)
   \<and> map data (updateUser (id' u) (manualSync e net u) users)
       = map (\<lambda>v. if id' v = id' u then manualSync e net u else data v) users"
proof -
  have sync: "codeforces (manualSync e net u)
      = (if h_codeforces (handles u) = [] then codeforces (data u)
         else (case fetchCodeforcesData e (cfAnswer net (h_codeforces (handles u))) of
                 None \<Rightarrow> codeforces (data u) | Some s \<Rightarrow> Some s))"
    "leetcode (manualSync e net u)
      = (if h_leetcode (handles u) = [] then leetcode (data u)
         else (case fetchLeetCodeData e (lcAnswer net (h_leetcode (handles u))) of
                 None \<Rightarrow> leetcode (data u) | Some s \<Rightarrow> Some s))"
    by (simp_all add: manualSync_def Let_def split: option.splits)
  have fail: "fetchCodeforcesData e CfRejected = None"
    "st \<noteq> Some (js ''OK'') \<longrightarrow> fetchCodeforcesData e (CfJson st r) = None"
    "fetchCodeforcesData e (CfJson st None) = None"
    "cf_forEach e subs ([], []) = None \<longrightarrow> fetchCodeforcesData e (CfJson st (Some subs)) = None"
    "fetchLeetCodeData e LcRejected = None"
    "st \<noteq> Some (js ''success'') \<longrightarrow> fetchLeetCodeData e (LcJson st n c) = None"
    by (simp_all add: fetchCodeforcesData_def fetchLeetCodeData_def)
  have upd: "map data (updateUser (id' u) (manualSync e net u) users)
       = map (\<lambda>v. if id' v = id' u then manualSync e net u else data v) users"
    by (simp add: updateUser_def comp_def if_distrib cong: if_cong)
  from sync have "codeforces (manualSync e net u) = codeforces (data u)"
    if "fetchCodeforcesData e (cfAnswer net (h_codeforces (handles u))) = None"
    using that by simp
  moreover from sync have "leetcode (manualSync e net u) = leetcode (data u)"
    if "fetchLeetCodeData e (lcAnswer net (h_leetcode (handles u))) = None"
    using that by simp
  ultimately show ?thesis
    using sync fail upd by simp
qed

theorem manualSync_platforms_independent_witness:
  "fetchCodeforcesData exampleClock (cfAnswer exampleNetwork (h_codeforces (handles exampleUser))) = None
   \<and> h_leetcode (handles exampleUser) \<noteq> []
   \<and> fetchLeetCodeData exampleClock (lcAnswer exampleNetwork (h_leetcode (handles exampleUser)))
       = Some \<lparr>totalSolved = 7, history = []\<rparr>
   \<and> codeforces (manualSync exampleClock exampleNetwork exampleUser)
       = Some \<lparr>totalSolved = 9, history = []\<rparr>
   \<and> leetcode (manualSync exampleClock exampleNetwork exampleUser)
       = Some \<lparr>totalSolved = 7, history = []\<rparr>"
proof -
  have a: "fetchCodeforcesData exampleClock
             (cfAnswer exampleNetwork (h_codeforces (handles exampleUser))) = None"
    by (simp add: exampleNetwork_def fetchCodeforcesData_def)
  have b: "h_leetcode (handles exampleUser) \<noteq> []"
    by (simp add: exampleUser_def js_def)
  have c: "fetchLeetCodeData exampleClock
             (lcAnswer exampleNetwork (h_leetcode (handles exampleUser)))
           = Some \<lparr>totalSolved = 7, history = []\<rparr>"
    by (simp add: exampleNetwork_def fetchLeetCodeData_def)
  have d: "codeforces (data exampleUser) = Some \<lparr>totalSolved = 9, history = []\<rparr>"
    by (simp add: exampleUser_def)
  from manualSync_platforms_independent
    [of exampleClock exampleNetwork exampleUser "\<lparr>totalSolved = 7, history = []\<rparr>"]
  show ?thesis using a b c d by simp
qed

text \<open>
  C8, the claim as stated, fails: the segment after \<open>leetcode.com/\<close> keeps its leading
  space, and a second normalisation removes it.
\<close>

theorem extractHandle_not_idempotent:
  "extractHandle (js ''leetcode.com/ abc'') (js ''LeetCode'') = js '' abc''
   \<and> extractHandle (extractHandle (js ''leetcode.com/ abc'') (js ''LeetCode'')) (js ''LeetCode'')
       \<noteq> extractHandle (js ''leetcode.com/ abc'') (js ''LeetCode'')"
proof -
  have t1: "trim (js ''leetcode.com/ abc'') = js ''leetcode.com/ abc''"
    by (simp add: trim_def js_def isWhiteSpace_def)
  have t2: "matchFirst leetcodeAt (js ''leetcode.com/ abc'') = Some (js '' abc'')"
    by (simp add: js_def leetcodeAt_def segment_def slash_def Let_def)
  have t3: "trim (js '' abc'') = js ''abc''"
    by (simp add: trim_def js_def isWhiteSpace_def)
  have t4: "matchFirst leetcodeAt (js ''abc'') = None"
    by (simp add: js_def leetcodeAt_def segment_def slash_def Let_def)
  have a: "extractHandle (js ''leetcode.com/ abc'') (js ''LeetCode'') = js '' abc''"
    by (simp add: extractHandle_def t1 t2) (simp add: js_def)
  have b: "extractHandle (js '' abc'') (js ''LeetCode'') = js ''abc''"
    by (simp add: extractHandle_def t3 t4) (simp add: js_def)
  have "js ''abc'' \<noteq> js '' abc''" by (simp add: js_def)
  with a b show ?thesis by simp
qed

text \<open>
  C8 (as the code has it). \<open>extractHandle\<close> is a total function from strings to strings,
  and normalising a second time trims the first result: the second result is
  \<open>trim\<close> of the first. Idempotence therefore holds exactly when the first result has
  no white space at either end, and from the second application on nothing changes.
\<close>

theorem extractHandle_twice:
  "extractHandle (extractHandle x p) p = trim (extractHandle x p)
   \<and> extractHandle (extractHandle (extractHandle x p) p) p = extractHandle (extractHandle x p) p"
proof -
  have once: "extractHandle (extractHandle y p) p = trim (extractHandle y p)" for y
  proof (cases "y = []")
    case True
    then show ?thesis by (simp add: extractHandle_def trim_Nil)
  next
    case False
    define r where "r = extractHandle y p"
    have "slash \<notin> set r \<or> (r = trim y \<and> extractHandle r p = r)"
    proof (cases "p = js ''LeetCode''")
      case True
      show ?thesis
      proof (cases "matchFirst leetcodeAt (trim y)")
        case None
        with True False have "r = trim y"
          by (simp add: r_def extractHandle_def Let_def)
        moreover from None True have "extractHandle (trim y) p = trim y"
          by (intro extractHandle_unmatched) (simp_all add: trim_trim)
        ultimately show ?thesis by simp
      next
        case (Some g)
        with True False have "r = g"
          by (simp add: r_def extractHandle_def Let_def)
        with matchFirst_Some [where at = leetcodeAt and s = "trim y" and g = g] Some leetcodeAt_Some
        show ?thesis by blast
      qed
    next
      case notLC: False
      show ?thesis
      proof (cases "p = js ''Codeforces''")
        case True
        show ?thesis
        proof (cases "matchFirst codeforcesAt (trim y)")
          case None
          with True notLC False have "r = trim y"
            by (simp add: r_def extractHandle_def Let_def)
          moreover from None True notLC have "extractHandle (trim y) p = trim y"
            by (intro extractHandle_unmatched) (simp_all add: trim_trim)
          ultimately show ?thesis by simp
        next
          case (Some g)
          with True notLC False have "r = g"
            by (simp add: r_def extractHandle_def Let_def)
          with matchFirst_Some [where at = codeforcesAt and s = "trim y" and g = g] Some
            codeforcesAt_Some
          show ?thesis by blast
        qed
      next
        case False
        with notLC \<open>y \<noteq> []\<close> have "r = trim y"
          by (simp add: r_def extractHandle_def Let_def)
        moreover from False notLC have "extractHandle (trim y) p = trim y"
          by (intro extractHandle_unmatched) (simp_all add: trim_trim)
        ultimately show ?thesis by simp
      qed
    qed
    then show ?thesis
    proof
      assume ns: "slash \<notin> set r"
      then have nst: "slash \<notin> set (trim r)"
        using set_trim_subset by blast
      have "extractHandle (trim r) p = trim r"
        by (intro extractHandle_unmatched)
          (simp_all add: trim_trim matchFirst_no_slash [OF leetcodeAt_Some nst]
            matchFirst_no_slash [OF codeforcesAt_Some nst])
      moreover have "extractHandle r p = extractHandle (trim r) p"
        by (cases "r = []")
          (auto simp: extractHandle_def Let_def trim_trim trim_Nil leetcodeAt_Nil codeforcesAt_Nil)
      ultimately show ?thesis by (simp add: r_def)
    next
      assume a: "r = trim y \<and> extractHandle r p = r"
      then have "trim r = r" by (metis trim_trim)
      with a have "extractHandle r p = trim r" by metis
      then show ?thesis by (simp only: r_def)
    qed
  qed
  have "extractHandle (extractHandle (extractHandle x p) p) p
        = trim (extractHandle (extractHandle x p) p)"
    by (rule once)
  also have "\<dots> = trim (trim (extractHandle x p))"
    by (simp add: once)
  also have "\<dots> = extractHandle (extractHandle x p) p"
    by (simp add: trim_trim once)
  finally show ?thesis using once by simp
qed

text \<open>
  C9. \<open>isDateInCurrentWeek\<close> answers false on the empty string, on \<open>null\<close> and on
  \<open>undefined\<close>.
\<close>

theorem isDateInCurrentWeek_falsy:
  "\<not> isDateInCurrentWeek e (Str []) \<and> \<not> isDateInCurrentWeek e Null
   \<and> \<not> isDateInCurrentWeek e Undefined"
  by (simp add: isDateInCurrentWeek_def)

text \<open>
  C10. Every record in the history of a successful Codeforces fetch has a count of at
  least 1 and at most \<open>totalSolved\<close>.
\<close>

theorem fetchCodeforcesData_count_bounds:
  assumes "fetchCodeforcesData e resp = Some stats" and "a \<in> set (history stats)"
  shows "1 \<le> count' a \<and> count' a \<le> totalSolved stats"
proof -
  from assms(1) obtain subs daily tot where
    run: "cf_forEach e subs ([], []) = Some (daily, tot)"
    and stats: "stats = \<lparr>totalSolved = int (length tot),
                  history = map (\<lambda>(d, s). \<lparr>date = d, count' = int (length s)\<rparr>) daily\<rparr>"
    by (auto simp: fetchCodeforcesData_def split: cf_response.splits if_splits option.splits)
  have "cf_inv ([], [])" by (simp add: cf_inv_def)
  from cf_forEach_inv [OF this run]
  have dt: "distinct tot"
    and all: "\<And>d s. (d, s) \<in> set daily \<Longrightarrow> s \<noteq> [] \<and> distinct s \<and> set s \<subseteq> set tot"
    by (auto simp: cf_inv_def list_all_iff)
  from assms(2) stats obtain d s where ds: "(d, s) \<in> set daily" and a: "count' a = int (length s)"
    by auto
  from all [OF ds] have "s \<noteq> []" "distinct s" "set s \<subseteq> set tot" by simp_all
  then have "1 \<le> length s" "card (set s) \<le> card (set tot)"
    by (simp_all add: Suc_leI card_mono)
  with \<open>distinct s\<close> dt have "1 \<le> length s \<and> length s \<le> length tot"
    by (simp add: distinct_card)
  with a stats show ?thesis by simp
qed

theorem fetchCodeforcesData_count_bounds_witness:
  "fetchCodeforcesData exampleClock (CfJson (Some (js ''OK'')) (Some exampleSubmissions))
     = Some \<lparr>totalSolved = 1,
             history = [\<lparr>date = js ''2024-01-01'', count' = 1\<rparr>,
                        \<lparr>date = js ''2024-01-02'', count' = 1\<rparr>]\<rparr>
   \<and> 1 \<le> count' \<lparr>date = js ''2024-01-02'', count' = 1\<rparr>
   \<and> count' \<lparr>date = js ''2024-01-02'', count' = 1\<rparr>
       \<le> totalSolved \<lparr>totalSolved = 1,
             history = [\<lparr>date = js ''2024-01-01'', count' = 1\<rparr>,
                        \<lparr>date = js ''2024-01-02'', count' = 1\<rparr>]\<rparr>"
proof -
  have "\<lparr>date = js ''2024-01-02'', count' = 1\<rparr>
        \<in> set (history \<lparr>totalSolved = 1,
             history = [\<lparr>date = js ''2024-01-01'', count' = 1\<rparr>,
                        \<lparr>date = js ''2024-01-02'', count' = 1\<rparr>]\<rparr>)"
    by simp
  from fetchCodeforcesData_count_bounds [OF example_fetch this] example_fetch
  show ?thesis by blast
qed

end
